theory Spec2Isabelle
  imports Complex_Main "HOL-Library.AList" "HOL-Library.Sublist"
begin

section \<open>The s3_object module: data model\<close>

text \<open>
  The module \<^verbatim>\<open>plugins/modules/s3_object.py\<close> reconciles one object (or bucket) of
  an S3-like store. Every function of the module talks to the store through a boto3
  client \<^verbatim>\<open>s3\<close>, leaves through \<^verbatim>\<open>module.exit_json\<close> / \<^verbatim>\<open>module.fail_json\<close>
  (which end the process) or raises. The embedding makes each of these explicit:
  \<^item> the client is a record of oracles, one per API operation, each a function of the
    history of events so far (so any deterministic backend, faulty or not, is an instance);
  \<^item> the history is threaded through every function and extended by each call issued,
    most recent event first;
  \<^item> a function returns \<open>Ret x\<close> when the Python returns \<open>x\<close>, and \<open>Stop s\<close> when it
    exits the module or raises.
\<close>

subsection \<open>Dictionaries of tags\<close>

text \<open>
  A Python \<^verbatim>\<open>dict\<close> from tag keys to tag values is an association list; two dicts are
  equal in Python when they hold the same items, whatever the insertion order.
\<close>

type_synonym tag_dict = "(string \<times> string) list"

definition dict_eq :: "tag_dict \<Rightarrow> tag_dict \<Rightarrow> bool" where
  "dict_eq a b = list_all (\<lambda>k. map_of a k = map_of b k) (map fst a @ map fst b)"

text \<open>\<^verbatim>\<open>d = a.copy(); d.update(b)\<close>: the items of \<open>b\<close> in order, each replacing the value
  of its key in place or appended when the key is new.\<close>

definition dict_update :: "tag_dict \<Rightarrow> tag_dict \<Rightarrow> tag_dict" where
  "dict_update a b = fold (\<lambda>kv d. AList.update (fst kv) (snd kv) d) b a"

subsection \<open>Faults of the client library\<close>

datatype fault =
    ClientError string string
  | BotoCoreError string
  | SSLError string
  | OtherException string

text \<open>
  \<open>ClientError code message\<close> is \<^verbatim>\<open>botocore.exceptions.ClientError\<close> with the
  \<^verbatim>\<open>Error.Code\<close> and \<^verbatim>\<open>Error.Message\<close> of its response; \<open>BotoCoreError name\<close> is any
  \<^verbatim>\<open>botocore.exceptions.BotoCoreError\<close> (by class name); \<open>SSLError\<close> is \<^verbatim>\<open>ssl.SSLError\<close>;
  \<open>OtherException\<close> is any other Python exception.
\<close>

fun contains :: "string \<Rightarrow> string \<Rightarrow> bool" where
  "contains pat [] = (pat = [])"
| "contains pat (c # cs) = (prefix pat (c # cs) \<or> contains pat cs)"

text \<open>Modelled from the spec: \<^verbatim>\<open>is_boto3_error_code\<close> and \<^verbatim>\<open>is_boto3_error_message\<close>
  live in \<^verbatim>\<open>module_utils\<close>; a response is recognised by its error code (not-found is
  \<^verbatim>\<open>404\<close>, access-denied is \<^verbatim>\<open>403\<close>) or "by message pattern".\<close>

definition is_boto3_error_code :: "string list \<Rightarrow> fault \<Rightarrow> bool" where
  "is_boto3_error_code codes e =
     (case e of ClientError c m \<Rightarrow> c \<in> set codes | _ \<Rightarrow> False)"

definition is_boto3_error_message :: "string \<Rightarrow> fault \<Rightarrow> bool" where
  "is_boto3_error_message pat e =
     (case e of ClientError c m \<Rightarrow> contains pat m | _ \<Rightarrow> False)"

text \<open>The clause \<^verbatim>\<open>except (botocore.exceptions.BotoCoreError, botocore.exceptions.ClientError)\<close>.\<close>

definition is_botocore :: "fault \<Rightarrow> bool" where
  "is_botocore e = (case e of ClientError c m \<Rightarrow> True | BotoCoreError n \<Rightarrow> True | _ \<Rightarrow> False)"

definition is_SSLError :: "fault \<Rightarrow> bool" where
  "is_SSLError e = (case e of SSLError m \<Rightarrow> True | _ \<Rightarrow> False)"

definition IGNORE_S3_DROP_IN_EXCEPTIONS :: "string list" where
  "IGNORE_S3_DROP_IN_EXCEPTIONS = [''XNotImplemented'', ''NotImplemented'']"

subsection \<open>Events, results and the ways a function ends\<close>

text \<open>A version argument is passed to the client only when it is truthy
  (\<^verbatim>\<open>if version:\<close>).\<close>

definition truthy :: "string option \<Rightarrow> bool" where
  "truthy v = (v \<noteq> None \<and> v \<noteq> Some [])"

definition version_arg :: "string option \<Rightarrow> string option" where
  "version_arg v = (if truthy v then v else None)"

datatype event =
    HeadObject string string "string option"
  | HeadBucket string
  | CreateBucket string "string option"
  | WaitBucketExists string
  | PutBucketAcl string string
  | ListObjectVersions string
  | ListObjectsV2 string
  | DeleteObjects string "(string \<times> string option) list"
  | DeleteBucket string
  | PutObjectAcl string string string
  | UploadFile string string string
  | UploadFileobj "string option" string string
  | GetObject string string "string option"
  | DownloadFile string string string "string option"
  | GetObjectTagging string string "string option"
  | PutObjectTagging string string tag_dict
  | DeleteObjectTagging string string
  | GeneratePresignedUrl string string string int
  | GetS3Connection bool
  | Sleep nat

type_synonym log = "event list"

text \<open>The keyword arguments of \<^verbatim>\<open>module.exit_json\<close>; an argument that is not passed
  is \<open>None\<close>.\<close>

record result =
  r_msg :: "string option"
  r_changed :: "bool option"
  r_url :: "string option"
  r_tags :: "tag_dict option"
  r_expiry :: "int option"
  r_contents :: "string option"
  r_failed :: "bool option"

definition no_result :: result where
  "no_result = \<lparr> r_msg = None, r_changed = None, r_url = None, r_tags = None,
                  r_expiry = None, r_contents = None, r_failed = None \<rparr>"

text \<open>
  \<open>Fail_json msg requested_tags live_tags\<close> is \<^verbatim>\<open>module.fail_json\<close>;
  \<open>Fail_json_aws e msg\<close> is \<^verbatim>\<open>module.fail_json_aws(e, msg=msg)\<close>, the failure that
  carries the fault; the \<open>Raise\<close> constructors are exceptions on their way up.
\<close>

datatype stop =
    Exit_json result
  | Fail_json string "tag_dict option" "tag_dict option"
  | Fail_json_aws fault string
  | Raise_S3ObjectFailure string fault
  | Raise_Sigv4Required
  | Raise_KeyError string
  | Raise fault
  | Main_returns

datatype 'a res = Ret 'a | Stop stop

definition then_do ::
  "(log \<Rightarrow> 'a res \<times> log) \<Rightarrow> ('a \<Rightarrow> log \<Rightarrow> 'b res \<times> log) \<Rightarrow> log \<Rightarrow> 'b res \<times> log" where
  "then_do m f lg = (case m lg of (Ret x, lg') \<Rightarrow> f x lg' | (Stop s, lg') \<Rightarrow> (Stop s, lg'))"

text \<open>\<^verbatim>\<open>try: ... except (BotoCoreError, ClientError) as e: raise S3ObjectFailure(msg, e)\<close>.\<close>

definition wrap_botocore :: "string \<Rightarrow> 'a res \<times> log \<Rightarrow> 'a res \<times> log" where
  "wrap_botocore m r =
     (case r of
        (Stop (Raise e), lg) \<Rightarrow>
          if is_botocore e then (Stop (Raise_S3ObjectFailure m e), lg) else (Stop (Raise e), lg)
      | _ \<Rightarrow> r)"

subsection \<open>The client, the module object and the local machine\<close>

record head_info =
  ETag :: string
  LastModified :: real

record versions_page =
  DeleteMarkers :: "(string \<times> string) list"
  Versions :: "(string \<times> string) list"

text \<open>
  The boto3 client. Each operation answers with a fault or a reply, as a function of
  the history before the call. A paginator is the finite sequence of pages it yields,
  followed by the fault (if any) that ends the iteration early. The retry decorator
  \<^verbatim>\<open>AWSRetry.jittered_backoff\<close> around \<^verbatim>\<open>put_bucket_acl\<close>, \<^verbatim>\<open>put_object_tagging\<close> and
  \<^verbatim>\<open>delete_object_tagging\<close> belongs to the client: the oracle's answer is the
  decorated call's outcome. The extra arguments of an upload (encryption, ACL, content
  type, metadata) are not represented.
\<close>

record backend =
  s3_head_object :: "log \<Rightarrow> string \<Rightarrow> string \<Rightarrow> string option \<Rightarrow> fault + head_info option"
  s3_head_bucket :: "log \<Rightarrow> string \<Rightarrow> fault + unit"
  s3_create_bucket :: "log \<Rightarrow> string \<Rightarrow> string option \<Rightarrow> fault + unit"
  s3_wait_bucket_exists :: "log \<Rightarrow> string \<Rightarrow> fault + unit"
  s3_put_bucket_acl :: "log \<Rightarrow> string \<Rightarrow> string \<Rightarrow> fault + unit"
  s3_list_object_versions :: "log \<Rightarrow> string \<Rightarrow> versions_page list \<times> fault option"
  s3_list_objects_v2 :: "log \<Rightarrow> string \<Rightarrow> string list list \<times> fault option"
  s3_delete_objects :: "log \<Rightarrow> string \<Rightarrow> (string \<times> string option) list \<Rightarrow> fault + unit"
  s3_delete_bucket :: "log \<Rightarrow> string \<Rightarrow> fault + unit"
  s3_put_object_acl :: "log \<Rightarrow> string \<Rightarrow> string \<Rightarrow> string \<Rightarrow> fault + unit"
  s3_upload_file :: "log \<Rightarrow> string \<Rightarrow> string \<Rightarrow> string \<Rightarrow> fault + unit"
  s3_upload_fileobj :: "log \<Rightarrow> string option \<Rightarrow> string \<Rightarrow> string \<Rightarrow> fault + unit"
  s3_get_object :: "log \<Rightarrow> string \<Rightarrow> string \<Rightarrow> string option \<Rightarrow> fault + string"
  s3_download_file :: "log \<Rightarrow> string \<Rightarrow> string \<Rightarrow> string \<Rightarrow> string option \<Rightarrow> fault + unit"
  s3_get_object_tagging :: "log \<Rightarrow> string \<Rightarrow> string \<Rightarrow> string option \<Rightarrow> fault + tag_dict"
  s3_put_object_tagging :: "log \<Rightarrow> string \<Rightarrow> string \<Rightarrow> tag_dict \<Rightarrow> fault + unit"
  s3_delete_object_tagging :: "log \<Rightarrow> string \<Rightarrow> string \<Rightarrow> fault + unit"
  s3_generate_presigned_url :: "log \<Rightarrow> string \<Rightarrow> string \<Rightarrow> string \<Rightarrow> int \<Rightarrow> fault + string"

text \<open>
  The \<^verbatim>\<open>module\<close> object: check mode, the parameters the functions read through
  \<^verbatim>\<open>module.params\<close>, and the framework's \<^verbatim>\<open>module.boolean\<close>, which answers \<open>None\<close>
  when it refuses a value (it then fails the module).
\<close>

record module =
  check_mode :: bool
  p_tags :: "tag_dict option"
  p_purge_tags :: bool
  p_permission :: "string list"
  boolean :: "string \<Rightarrow> bool option"

text \<open>
  The local machine and the helpers of \<^verbatim>\<open>module_utils.s3\<close> that fingerprint local
  data: \<^verbatim>\<open>os.path.exists\<close>, \<^verbatim>\<open>os.path.getmtime\<close>,
  \<^verbatim>\<open>calculate_etag(module, filename, etag, ...)\<close>,
  \<^verbatim>\<open>calculate_etag_content(module, content, etag, ...)\<close> and
  \<^verbatim>\<open>base64.standard_b64decode\<close>.
  Modelled from the spec: the two fingerprint helpers are taken as functions of the
  local data and the remote ETag ("compute a content fingerprint of the local data
  (single-part MD5 digest, or, if the remote ETag indicates a multipart upload, a
  matching multipart-digest)").
\<close>

record local_env =
  path_exists :: "string \<Rightarrow> bool"
  getmtime :: "string \<Rightarrow> real"
  calculate_etag :: "string \<Rightarrow> string option \<Rightarrow> string option"
  calculate_etag_content :: "string option \<Rightarrow> string option \<Rightarrow> string option"
  standard_b64decode :: "string \<Rightarrow> string"

section \<open>Existence probes\<close>

definition key_check ::
  "module \<Rightarrow> backend \<Rightarrow> string \<Rightarrow> string \<Rightarrow> string option \<Rightarrow> bool \<Rightarrow> log \<Rightarrow> bool res \<times> log" where
  "key_check m s3 bucket obj version validate lg =
     (let lg' = HeadObject bucket obj (version_arg version) # lg in
      case s3_head_object s3 lg bucket obj (version_arg version) of
        Inr r \<Rightarrow> (Ret True, lg')
      | Inl e \<Rightarrow>
          if is_boto3_error_code [''404''] e then (Ret False, lg')
          else if is_boto3_error_code [''403''] e then
            (if validate
             then (Stop (Fail_json_aws e
                    (''Failed while looking up object (during key check) '' @ obj @ ''.'')), lg')
             else (Ret True, lg'))
          else if is_botocore e then
            (Stop (Raise_S3ObjectFailure
               (''Failed while looking up object (during key check) '' @ obj @ ''.'') e), lg')
          else (Stop (Raise e), lg'))"

definition bucket_check ::
  "module \<Rightarrow> backend \<Rightarrow> string \<Rightarrow> bool \<Rightarrow> log \<Rightarrow> bool res \<times> log" where
  "bucket_check m s3 bucket validate lg =
     (let lg' = HeadBucket bucket # lg in
      case s3_head_bucket s3 lg bucket of
        Inr r \<Rightarrow> (Ret True, lg')
      | Inl e \<Rightarrow>
          if is_boto3_error_code [''404''] e then (Ret False, lg')
          else if is_boto3_error_code [''403''] e then
            (if validate
             then (Stop (Fail_json_aws e
                    (''Failed while looking up bucket (during bucket_check) '' @ bucket @ ''.'')), lg')
             else (Ret True, lg'))
          else if is_botocore e then
            (Stop (Raise_S3ObjectFailure
               (''Failed while looking up bucket (during bucket_check) '' @ bucket @ ''.'') e), lg')
          else (Stop (Raise e), lg'))"

section \<open>Primitive steps\<close>

text \<open>\<open>ret x\<close> returns \<open>x\<close>; \<open>api reply ev\<close> records the call \<open>ev\<close> and returns the
  client's reply or raises its fault.\<close>

definition ret :: "'a \<Rightarrow> log \<Rightarrow> 'a res \<times> log" where
  "ret x lg = (Ret x, lg)"

definition api :: "fault + 'a \<Rightarrow> event \<Rightarrow> log \<Rightarrow> 'a res \<times> log" where
  "api reply ev lg = (case reply of Inl e \<Rightarrow> (Stop (Raise e), ev # lg) | Inr x \<Rightarrow> (Ret x, ev # lg))"

definition exit_json :: "result \<Rightarrow> log \<Rightarrow> 'a res \<times> log" where
  "exit_json r lg = (Stop (Exit_json r), lg)"

definition fail_json :: "string \<Rightarrow> log \<Rightarrow> 'a res \<times> log" where
  "fail_json m lg = (Stop (Fail_json m None None), lg)"

section \<open>Fingerprints\<close>

definition get_etag ::
  "backend \<Rightarrow> string \<Rightarrow> string \<Rightarrow> string option \<Rightarrow> log \<Rightarrow> string option res \<times> log" where
  "get_etag s3 bucket obj version lg =
     (let lg' = HeadObject bucket obj (version_arg version) # lg in
      case s3_head_object s3 lg bucket obj (version_arg version) of
        Inr None \<Rightarrow> (Ret None, lg')
      | Inr (Some head) \<Rightarrow> (Ret (Some (ETag head)), lg')
      | Inl e \<Rightarrow>
          if is_boto3_error_code [''404''] e then (Ret None, lg') else (Stop (Raise e), lg'))"

definition etag_compare ::
  "local_env \<Rightarrow> backend \<Rightarrow> string \<Rightarrow> string \<Rightarrow> string option \<Rightarrow> string option \<Rightarrow>
   string option \<Rightarrow> log \<Rightarrow> bool res \<times> log" where
  "etag_compare env s3 bucket obj version local_file content =
     then_do (get_etag s3 bucket obj version) (\<lambda>s3_etag.
       let local_etag =
         (case local_file of
            Some f \<Rightarrow> calculate_etag env f s3_etag
          | None \<Rightarrow> calculate_etag_content env content s3_etag)
       in ret (s3_etag = local_etag))"

definition get_s3_last_modified_timestamp ::
  "backend \<Rightarrow> string \<Rightarrow> string \<Rightarrow> string option \<Rightarrow> log \<Rightarrow> real option res \<times> log" where
  "get_s3_last_modified_timestamp s3 bucket obj version lg =
     then_do (api (s3_head_object s3 lg bucket obj (version_arg version))
                  (HeadObject bucket obj (version_arg version)))
       (\<lambda>key_check. ret (map_option LastModified key_check)) lg"

text \<open>Comparing \<^verbatim>\<open>None <= float\<close> raises \<^verbatim>\<open>TypeError\<close>.\<close>

definition is_local_object_latest ::
  "local_env \<Rightarrow> backend \<Rightarrow> string \<Rightarrow> string \<Rightarrow> string option \<Rightarrow> string \<Rightarrow> log \<Rightarrow> bool res \<times> log" where
  "is_local_object_latest env s3 bucket obj version local_file =
     then_do (get_s3_last_modified_timestamp s3 bucket obj version) (\<lambda>s3_last_modified.
       if \<not> path_exists env local_file then ret False
       else (case s3_last_modified of
               None \<Rightarrow> (\<lambda>lg. (Stop (Raise (OtherException ''TypeError'')), lg))
             | Some t \<Rightarrow> ret (t \<le> getmtime env local_file)))"

definition path_check :: "local_env \<Rightarrow> string \<Rightarrow> bool" where
  "path_check env path = (if path_exists env path then True else False)"

section \<open>Tag convergence\<close>

definition get_current_object_tags_dict ::
  "backend \<Rightarrow> string \<Rightarrow> string \<Rightarrow> string option \<Rightarrow> log \<Rightarrow> tag_dict res \<times> log" where
  "get_current_object_tags_dict s3 bucket obj version lg =
     api (s3_get_object_tagging s3 lg bucket obj (version_arg version))
         (GetObjectTagging bucket obj (version_arg version)) lg"

definition put_object_tagging ::
  "backend \<Rightarrow> string \<Rightarrow> string \<Rightarrow> tag_dict \<Rightarrow> log \<Rightarrow> unit res \<times> log" where
  "put_object_tagging s3 bucket obj tags lg =
     api (s3_put_object_tagging s3 lg bucket obj tags) (PutObjectTagging bucket obj tags) lg"

definition delete_object_tagging ::
  "backend \<Rightarrow> string \<Rightarrow> string \<Rightarrow> log \<Rightarrow> unit res \<times> log" where
  "delete_object_tagging s3 bucket obj lg =
     api (s3_delete_object_tagging s3 lg bucket obj) (DeleteObjectTagging bucket obj) lg"

text \<open>
  The body of \<^verbatim>\<open>for dummy in range(0, 12)\<close> with the number of iterations left and the
  value of \<^verbatim>\<open>current_tags_dict\<close> (unbound before the first iteration). When the range is
  exhausted the function fails with the requested and the live tags.
\<close>

fun wait_tags_loop ::
  "backend \<Rightarrow> string \<Rightarrow> string \<Rightarrow> tag_dict \<Rightarrow> string option \<Rightarrow> nat \<Rightarrow> tag_dict option \<Rightarrow>
   log \<Rightarrow> tag_dict res \<times> log" where
  "wait_tags_loop s3 bucket obj expected_tags_dict version 0 live lg =
     (Stop (Fail_json ''Object tags failed to apply in the expected time.''
              (Some expected_tags_dict) live), lg)"
| "wait_tags_loop s3 bucket obj expected_tags_dict version (Suc n) live lg =
     (case wrap_botocore ''Failed to get object tags.''
             (get_current_object_tags_dict s3 bucket obj version lg) of
        (Ret current_tags_dict, lg') \<Rightarrow>
          if \<not> dict_eq current_tags_dict expected_tags_dict
          then wait_tags_loop s3 bucket obj expected_tags_dict version n
                 (Some current_tags_dict) (Sleep 5 # lg')
          else (Ret current_tags_dict, lg')
      | (Stop s, lg') \<Rightarrow> (Stop s, lg'))"

definition wait_tags_are_applied ::
  "module \<Rightarrow> backend \<Rightarrow> string \<Rightarrow> string \<Rightarrow> tag_dict \<Rightarrow> string option \<Rightarrow> log \<Rightarrow>
   tag_dict res \<times> log" where
  "wait_tags_are_applied m s3 bucket obj expected_tags_dict version lg =
     wait_tags_loop s3 bucket obj expected_tags_dict version 12 None lg"

text \<open>The tag set \<^verbatim>\<open>ensure_tags\<close> aims at: the desired tags, merged over the current
  ones unless \<^verbatim>\<open>purge_tags\<close> is set.\<close>

definition target_tags :: "bool \<Rightarrow> tag_dict \<Rightarrow> tag_dict \<Rightarrow> tag_dict" where
  "target_tags purge_tags current_tags_dict tags =
     (if \<not> purge_tags then dict_update current_tags_dict tags else tags)"

definition ensure_tags ::
  "backend \<Rightarrow> module \<Rightarrow> string \<Rightarrow> string \<Rightarrow> log \<Rightarrow> (tag_dict \<times> bool) res \<times> log" where
  "ensure_tags client m bucket obj =
     then_do (\<lambda>lg. wrap_botocore ''Failed to get object tags.''
                     (get_current_object_tags_dict client bucket obj None lg))
       (\<lambda>current_tags_dict.
          case p_tags m of
            None \<Rightarrow> ret (current_tags_dict, False)
          | Some tags0 \<Rightarrow>
              let tags = target_tags (p_purge_tags m) current_tags_dict tags0 in
              if \<not> dict_eq current_tags_dict tags then
                then_do
                  (if tags \<noteq> [] then
                     (\<lambda>lg. wrap_botocore ''Failed to update object tags.''
                             (put_object_tagging client bucket obj tags lg))
                   else if p_purge_tags m then
                     (\<lambda>lg. wrap_botocore ''Failed to delete object tags.''
                             (delete_object_tagging client bucket obj lg))
                   else ret ())
                  (\<lambda>u. then_do (wait_tags_are_applied m client bucket obj tags None)
                         (\<lambda>applied. ret (applied, True)))
              else ret (current_tags_dict, False))"

section \<open>Presigned URLs, ACLs, bucket creation and upload\<close>

definition get_download_url ::
  "module \<Rightarrow> backend \<Rightarrow> string \<Rightarrow> string \<Rightarrow> int \<Rightarrow> tag_dict option \<Rightarrow> bool \<Rightarrow> log \<Rightarrow>
   unit res \<times> log" where
  "get_download_url m s3 bucket obj expiry tags changed lg =
     wrap_botocore ''Failed while getting download url.''
       (then_do (\<lambda>lg. api (s3_generate_presigned_url s3 lg ''get_object'' bucket obj expiry)
                          (GeneratePresignedUrl ''get_object'' bucket obj expiry) lg)
          (\<lambda>url. exit_json (no_result\<lparr> r_msg := Some ''Download url:'', r_url := Some url,
                     r_tags := tags, r_expiry := Some expiry, r_changed := Some changed \<rparr>)) lg)"

definition put_download_url ::
  "backend \<Rightarrow> string \<Rightarrow> string \<Rightarrow> int \<Rightarrow> log \<Rightarrow> string res \<times> log" where
  "put_download_url s3 bucket obj expiry lg =
     wrap_botocore ''Unable to generate presigned URL''
       (api (s3_generate_presigned_url s3 lg ''put_object'' bucket obj expiry)
            (GeneratePresignedUrl ''put_object'' bucket obj expiry) lg)"

text \<open>\<^verbatim>\<open>for acl in module.params.get("permission"): s3.put_object_acl(...)\<close>.\<close>

fun put_object_acl_loop ::
  "backend \<Rightarrow> string \<Rightarrow> string \<Rightarrow> string list \<Rightarrow> log \<Rightarrow> unit res \<times> log" where
  "put_object_acl_loop s3 bucket obj [] lg = (Ret (), lg)"
| "put_object_acl_loop s3 bucket obj (acl # acls) lg =
     (case s3_put_object_acl s3 lg acl bucket obj of
        Inl e \<Rightarrow> (Stop (Raise e), PutObjectAcl acl bucket obj # lg)
      | Inr u \<Rightarrow> put_object_acl_loop s3 bucket obj acls (PutObjectAcl acl bucket obj # lg))"

text \<open>\<^verbatim>\<open>put_object_acl\<close> as called with \<^verbatim>\<open>params=None\<close> (after an upload): a backend
  without ACLs gives a warning only.\<close>

definition put_object_acl ::
  "module \<Rightarrow> backend \<Rightarrow> string \<Rightarrow> string \<Rightarrow> log \<Rightarrow> unit res \<times> log" where
  "put_object_acl m s3 bucket obj lg =
     (case put_object_acl_loop s3 bucket obj (p_permission m) lg of
        (Stop (Raise e), lg') \<Rightarrow>
          if is_boto3_error_code [''AccessControlListNotSupported''] e then (Ret (), lg')
          else if is_botocore e
          then (Stop (Raise_S3ObjectFailure (''Failed while creating object '' @ obj @ ''.'') e), lg')
          else (Stop (Raise e), lg')
      | r \<Rightarrow> r)"

fun put_bucket_acl_loop ::
  "backend \<Rightarrow> string \<Rightarrow> string list \<Rightarrow> log \<Rightarrow> unit res \<times> log" where
  "put_bucket_acl_loop s3 bucket [] lg = (Ret (), lg)"
| "put_bucket_acl_loop s3 bucket (acl # acls) lg =
     (case s3_put_bucket_acl s3 lg acl bucket of
        Inl e \<Rightarrow> (Stop (Raise e), PutBucketAcl acl bucket # lg)
      | Inr u \<Rightarrow> put_bucket_acl_loop s3 bucket acls (PutBucketAcl acl bucket # lg))"

definition create_bucket ::
  "module \<Rightarrow> backend \<Rightarrow> string \<Rightarrow> string option \<Rightarrow> log \<Rightarrow> bool option res \<times> log" where
  "create_bucket m s3 bucket location lg =
     (if check_mode m
      then exit_json (no_result\<lparr> r_msg := Some ''CREATE operation skipped - running in check mode'',
                        r_changed := Some True \<rparr>) lg
      else
        let configuration = (if location \<notin> {Some ''us-east-1'', None} then location else None);
            finish = (\<lambda>lg. if bucket \<noteq> [] then (Ret (Some True), lg) else (Ret None, lg))
        in
        case then_do (\<lambda>lg. api (s3_create_bucket s3 lg bucket configuration)
                               (CreateBucket bucket configuration) lg)
               (\<lambda>u. then_do
                  (if p_permission m \<noteq> []
                   then (\<lambda>lg. api (s3_wait_bucket_exists s3 lg bucket) (WaitBucketExists bucket) lg)
                   else ret ())
                  (\<lambda>u. put_bucket_acl_loop s3 bucket (p_permission m))) lg of
          (Ret u, lg') \<Rightarrow> finish lg'
        | (Stop (Raise e), lg') \<Rightarrow>
            if is_boto3_error_code IGNORE_S3_DROP_IN_EXCEPTIONS e then finish lg'
            else if is_botocore e
            then (Stop (Raise_S3ObjectFailure
                    ''Failed while creating bucket or setting acl (check that you have CreateBucket and PutBucketAcl permission).'' e), lg')
            else (Stop (Raise e), lg')
        | (Stop s, lg') \<Rightarrow> (Stop s, lg'))"

text \<open>
  \<^verbatim>\<open>upload_s3file\<close>: one transfer call (\<^verbatim>\<open>upload_file\<close> from a path, else
  \<^verbatim>\<open>upload_fileobj\<close> from the bytes), then ACLs, tags and the URL. The parameters
  \<^verbatim>\<open>metadata\<close>, \<^verbatim>\<open>encrypt\<close> and \<^verbatim>\<open>headers\<close> only shape the extra arguments of the
  transfer, which the events do not carry.
\<close>

definition upload_s3file ::
  "module \<Rightarrow> backend \<Rightarrow> string \<Rightarrow> string \<Rightarrow> int \<Rightarrow> string option \<Rightarrow> string option \<Rightarrow> bool \<Rightarrow>
   log \<Rightarrow> unit res \<times> log" where
  "upload_s3file m s3 bucket obj expiry src content acl_disabled lg =
     (if check_mode m
      then exit_json (no_result\<lparr> r_msg := Some ''PUT operation skipped - running in check mode'',
                        r_changed := Some True \<rparr>) lg
      else
        then_do
          (\<lambda>lg. wrap_botocore ''Unable to complete PUT operation.''
             (case src of
                Some f \<Rightarrow>
                  if f \<noteq> [] then api (s3_upload_file s3 lg f bucket obj) (UploadFile f bucket obj) lg
                  else api (s3_upload_fileobj s3 lg content bucket obj)
                           (UploadFileobj content bucket obj) lg
              | None \<Rightarrow> api (s3_upload_fileobj s3 lg content bucket obj)
                            (UploadFileobj content bucket obj) lg))
          (\<lambda>u. then_do (if \<not> acl_disabled then put_object_acl m s3 bucket obj else ret ())
             (\<lambda>u. then_do (ensure_tags s3 m bucket obj)
                (\<lambda>tc. then_do (put_download_url s3 bucket obj expiry)
                   (\<lambda>url. exit_json (no_result\<lparr> r_msg := Some ''PUT operation complete'',
                              r_url := Some url, r_tags := Some (fst tc),
                              r_changed := Some True \<rparr>))))) lg)"

section \<open>Download\<close>

text \<open>
  The loop \<^verbatim>\<open>for x in range(0, retries + 1)\<close> over the values of \<open>x\<close> that are left.
  A \<^verbatim>\<open>ClientError\<close> or \<^verbatim>\<open>BotoCoreError\<close> of any code, and an \<^verbatim>\<open>SSLError\<close>, is
  swallowed unless \<open>x \<ge> retries\<close>; any other exception propagates. When the range is
  exhausted the function returns.
\<close>

fun download_loop ::
  "module \<Rightarrow> backend \<Rightarrow> string \<Rightarrow> string \<Rightarrow> string \<Rightarrow> int \<Rightarrow> string option \<Rightarrow> int list \<Rightarrow>
   log \<Rightarrow> unit res \<times> log" where
  "download_loop m s3 bucket obj dest retries version [] lg = (Ret (), lg)"
| "download_loop m s3 bucket obj dest retries version (x # xs) lg =
     (let lg' = DownloadFile bucket obj dest (version_arg version) # lg in
      case s3_download_file s3 lg bucket obj dest (version_arg version) of
        Inr u \<Rightarrow> exit_json (no_result\<lparr> r_msg := Some ''GET operation complete'',
                              r_changed := Some True \<rparr>) lg'
      | Inl e \<Rightarrow>
          if is_botocore e then
            (if x \<ge> retries
             then (Stop (Raise_S3ObjectFailure (''Failed while downloading '' @ obj @ ''.'') e), lg')
             else download_loop m s3 bucket obj dest retries version xs lg')
          else if is_SSLError e then
            (if x \<ge> retries
             then (Stop (Fail_json_aws e ''s3 download failed''), lg')
             else download_loop m s3 bucket obj dest retries version xs lg')
          else (Stop (Raise e), lg'))"

definition download_s3file ::
  "module \<Rightarrow> backend \<Rightarrow> string \<Rightarrow> string \<Rightarrow> string \<Rightarrow> int \<Rightarrow> string option \<Rightarrow> log \<Rightarrow>
   unit res \<times> log" where
  "download_s3file m s3 bucket obj dest retries version lg =
     (if check_mode m
      then exit_json (no_result\<lparr> r_msg := Some ''GET operation skipped - running in check mode'',
                        r_changed := Some True \<rparr>) lg
      else
        let lg' = GetObject bucket obj (version_arg version) # lg in
        case s3_get_object s3 lg bucket obj (version_arg version) of
          Inl e \<Rightarrow>
            if is_boto3_error_code [''404'', ''403''] e
            then (Stop (Fail_json_aws e (''Could not find the key '' @ obj @ ''.'')), lg')
            else if is_boto3_error_message ''require AWS Signature Version 4'' e
            then (Stop Raise_Sigv4Required, lg')
            else if is_boto3_error_code [''InvalidArgument''] e
            then (Stop (Fail_json_aws e (''Could not find the key '' @ obj @ ''.'')), lg')
            else if is_botocore e
            then (Stop (Raise_S3ObjectFailure (''Could not find the key '' @ obj @ ''.'') e), lg')
            else (Stop (Raise e), lg')
        | Inr body \<Rightarrow> download_loop m s3 bucket obj dest retries version [0..retries] lg')"

definition download_s3str ::
  "module \<Rightarrow> backend \<Rightarrow> string \<Rightarrow> string \<Rightarrow> string option \<Rightarrow> log \<Rightarrow> unit res \<times> log" where
  "download_s3str m s3 bucket obj version lg =
     (if check_mode m
      then exit_json (no_result\<lparr> r_msg := Some ''GET operation skipped - running in check mode'',
                        r_changed := Some True \<rparr>) lg
      else
        let lg' = GetObject bucket obj (version_arg version) # lg in
        case s3_get_object s3 lg bucket obj (version_arg version) of
          Inr contents \<Rightarrow>
            exit_json (no_result\<lparr> r_msg := Some ''GET operation complete'',
                         r_contents := Some contents, r_changed := Some True \<rparr>) lg'
        | Inl e \<Rightarrow>
            if is_boto3_error_message ''require AWS Signature Version 4'' e
            then (Stop Raise_Sigv4Required, lg')
            else if is_boto3_error_code [''InvalidArgument''] e
            then (Stop (Fail_json_aws e
                    (''Failed while getting contents of object '' @ obj @ '' as a string.'')), lg')
            else if is_botocore e
            then (Stop (Raise_S3ObjectFailure
                    (''Failed while getting contents of object '' @ obj @ '' as a string.'') e), lg')
            else (Stop (Raise e), lg'))"

section \<open>Bucket deletion\<close>

text \<open>The batches \<^verbatim>\<open>paginated_versioned_list_with_fallback\<close> yields for its pages: the delete
  markers and then the versions of a page, each with its version id; in the fallback,
  one batch per key, without version id.\<close>

definition versioned_batch :: "versions_page \<Rightarrow> (string \<times> string option) list" where
  "versioned_batch page =
     map (\<lambda>d. (fst d, Some (snd d))) (DeleteMarkers page) @
     map (\<lambda>d. (fst d, Some (snd d))) (Versions page)"

definition paginated_list_batches :: "string list list \<Rightarrow> (string \<times> string option) list list" where
  "paginated_list_batches pages = map (\<lambda>key. [(key, None)]) (concat pages)"

text \<open>\<^verbatim>\<open>for keys in ...: if keys: s3.delete_objects(Bucket=bucket, Delete={"Objects": keys})\<close>.\<close>

fun delete_batches ::
  "backend \<Rightarrow> string \<Rightarrow> (string \<times> string option) list list \<Rightarrow> log \<Rightarrow> unit res \<times> log" where
  "delete_batches s3 bucket [] lg = (Ret (), lg)"
| "delete_batches s3 bucket (keys # rest) lg =
     (if keys \<noteq> [] then
        (case s3_delete_objects s3 lg bucket keys of
           Inl e \<Rightarrow> (Stop (Raise e), DeleteObjects bucket keys # lg)
         | Inr u \<Rightarrow> delete_batches s3 bucket rest (DeleteObjects bucket keys # lg))
      else delete_batches s3 bucket rest lg)"

text \<open>The loop of \<^verbatim>\<open>delete_bucket\<close> over the generator: the versioned pages first; when
  listing versions ends in a not-implemented or access-denied fault, the plain key
  listing from its start; any other fault of a listing propagates.\<close>

definition delete_all_keys :: "backend \<Rightarrow> string \<Rightarrow> log \<Rightarrow> unit res \<times> log" where
  "delete_all_keys s3 bucket lg =
     (case s3_list_object_versions s3 lg bucket of
        (pages, ending) \<Rightarrow>
          then_do (delete_batches s3 bucket (map versioned_batch pages))
            (\<lambda>u. case ending of
                    None \<Rightarrow> ret ()
                  | Some e \<Rightarrow>
                      if is_boto3_error_code (IGNORE_S3_DROP_IN_EXCEPTIONS @ [''AccessDenied'']) e
                      then (\<lambda>lg. case s3_list_objects_v2 s3 lg bucket of
                              (key_pages, ending2) \<Rightarrow>
                                then_do (delete_batches s3 bucket (paginated_list_batches key_pages))
                                  (\<lambda>u lg. case ending2 of None \<Rightarrow> (Ret (), lg)
                                           | Some e2 \<Rightarrow> (Stop (Raise e2), lg))
                                  (ListObjectsV2 bucket # lg))
                      else (\<lambda>lg. (Stop (Raise e), lg)))
            (ListObjectVersions bucket # lg))"

definition delete_bucket :: "module \<Rightarrow> backend \<Rightarrow> string \<Rightarrow> log \<Rightarrow> bool res \<times> log" where
  "delete_bucket m s3 bucket lg =
     (if check_mode m
      then exit_json (no_result\<lparr> r_msg := Some ''DELETE operation skipped - running in check mode'',
                        r_changed := Some True \<rparr>) lg
      else
        case then_do (bucket_check m s3 bucket True)
               (\<lambda>exists. if \<not> exists then ret False
                  else then_do (delete_all_keys s3 bucket)
                         (\<lambda>u. then_do (\<lambda>lg. api (s3_delete_bucket s3 lg bucket) (DeleteBucket bucket) lg)
                                 (\<lambda>u. ret True))) lg of
          (Stop (Raise e), lg') \<Rightarrow>
            if is_boto3_error_code [''NoSuchBucket''] e then (Ret False, lg')
            else if is_botocore e
            then (Stop (Raise_S3ObjectFailure (''Failed while deleting bucket '' @ bucket @ ''.'') e), lg')
            else (Stop (Raise e), lg')
        | r \<Rightarrow> r)"

section \<open>The request and the mode handlers\<close>

text \<open>
  The entries of the dict \<^verbatim>\<open>s3_vars\<close> (the module parameters and the facts added by
  \<^verbatim>\<open>populate_facts\<close> and \<^verbatim>\<open>validate_bucket\<close>) that the handlers below read. For the modes
  modelled, \<^verbatim>\<open>bucket\<close> is required, and so are \<^verbatim>\<open>object\<close> (put, get, getstr) and
  \<^verbatim>\<open>dest\<close> (get). The handlers' stores to \<^verbatim>\<open>s3_vars["permission"]\<close> are not modelled:
  the functions called read \<^verbatim>\<open>module.params\<close>, a different dict.
\<close>

record s3_vars =
  v_bucket :: string
  v_object :: string
  v_version :: "string option"
  v_validate :: bool
  v_dest :: string
  v_overwrite :: string
  v_retries :: int
  v_src :: "string option"
  v_content :: "string option"
  v_content_base64 :: "string option"
  v_bucketrtn :: bool
  v_expiry :: int
  v_location :: "string option"
  v_acl_disabled :: bool

text \<open>\<^verbatim>\<open>s3_vars[k]\<close> for the keys whose values the download call takes as the object
  name. The dict has an entry \<^verbatim>\<open>object\<close> (a module parameter); no parameter and no fact
  is called \<^verbatim>\<open>obj\<close>, so that subscript raises \<^verbatim>\<open>KeyError\<close>.\<close>

definition s3_vars_getitem :: "s3_vars \<Rightarrow> string \<Rightarrow> string option" where
  "s3_vars_getitem v k =
     (if k = ''object'' then Some (v_object v)
      else if k = ''bucket'' then Some (v_bucket v)
      else None)"

definition get_binary_content :: "local_env \<Rightarrow> s3_vars \<Rightarrow> string option" where
  "get_binary_content env vars =
     (let bincontent = None;
          bincontent = (if truthy (v_content vars) then v_content vars else bincontent);
          bincontent = (case v_content_base64 vars of
                          Some c \<Rightarrow> if c \<noteq> [] then Some (standard_b64decode env c) else bincontent
                        | None \<Rightarrow> bincontent)
      in bincontent)"

definition s3_object_do_put ::
  "local_env \<Rightarrow> module \<Rightarrow> backend \<Rightarrow> s3_vars \<Rightarrow> log \<Rightarrow> unit res \<times> log" where
  "s3_object_do_put env m connection vars lg =
     (if v_content vars = None \<and> v_content_base64 vars = None \<and> v_src vars = None
      then fail_json ''Either content, content_base64 or src must be specified for PUT operations'' lg
      else if (case v_src vars of Some f \<Rightarrow> \<not> path_check env f | None \<Rightarrow> False)
      then fail_json (''Local object '' @ [CHR 0x22] @ the (v_src vars) @ [CHR 0x22] @
                      '' does not exist for PUT operation'') lg
      else
        then_do
          (if v_bucketrtn vars
           then then_do (key_check m connection (v_bucket vars) (v_object vars) (v_version vars)
                           (v_validate vars)) (\<lambda>k. ret (Some k))
           else then_do (create_bucket m connection (v_bucket vars) (v_location vars))
                  (\<lambda>b. ret None))
          (\<lambda>keyrtn.
             let bincontent = get_binary_content env vars;
                 upload = then_do
                   (upload_s3file m connection (v_bucket vars) (v_object vars) (v_expiry vars)
                      (v_src vars) bincontent (v_acl_disabled vars))
                   (\<lambda>u. exit_json (no_result\<lparr> r_failed := Some False \<rparr>))
             in
             if keyrtn = Some True \<and> v_overwrite vars \<noteq> ''always'' then
               then_do
                 (if v_overwrite vars = ''never'' then ret True
                  else etag_compare env connection (v_bucket vars) (v_object vars) (v_version vars)
                         (v_src vars) bincontent)
                 (\<lambda>skip.
                    if skip then
                      then_do (ensure_tags connection m (v_bucket vars) (v_object vars))
                        (\<lambda>tu. then_do
                           (get_download_url m connection (v_bucket vars) (v_object vars)
                              (v_expiry vars) (Some (fst tu)) (snd tu))
                           (\<lambda>u. upload))
                    else upload)
             else upload) lg)"

text \<open>The overwrite gate of \<^verbatim>\<open>s3_object_do_get\<close>: it exits when the local file is to be
  kept and returns when the download is to go ahead.\<close>

definition get_overwrite_gate ::
  "local_env \<Rightarrow> module \<Rightarrow> backend \<Rightarrow> s3_vars \<Rightarrow> log \<Rightarrow> unit res \<times> log" where
  "get_overwrite_gate env m connection vars =
     (if v_dest vars \<noteq> [] \<and> path_check env (v_dest vars) \<and> v_overwrite vars \<noteq> ''always'' then
        (if v_overwrite vars = ''never''
         then exit_json (no_result\<lparr> r_msg := Some ''Local object already exists and overwrite is disabled.'',
                           r_changed := Some False \<rparr>)
         else
           then_do
             (if v_overwrite vars = ''different''
              then etag_compare env connection (v_bucket vars) (v_object vars) (v_version vars)
                     (Some (v_dest vars)) None
              else ret False)
             (\<lambda>same.
                if same
                then exit_json (no_result\<lparr> r_msg := Some ''Local and remote object are identical, ignoring. Use overwrite=always parameter to force.'',
                                  r_changed := Some False \<rparr>)
                else
                  then_do
                    (if v_overwrite vars = ''latest''
                     then is_local_object_latest env connection (v_bucket vars) (v_object vars)
                            (v_version vars) (v_dest vars)
                     else ret False)
                    (\<lambda>latest.
                       if latest
                       then exit_json (no_result\<lparr> r_msg := Some ''Local object is latest, ignoreing. Use overwrite=always parameter to force.'',
                                         r_changed := Some False \<rparr>)
                       else ret ())))
      else ret ())"

text \<open>The \<^verbatim>\<open>try\<close> block of \<^verbatim>\<open>s3_object_do_get\<close> and what follows it. On
  \<^verbatim>\<open>Sigv4Required\<close> the handler asks for a new connection with \<^verbatim>\<open>sig_4=True\<close> (the
  oracles see the event in the history) and evaluates the arguments of the second
  \<^verbatim>\<open>download_s3file\<close> call, among them \<^verbatim>\<open>s3_vars["obj"]\<close>.\<close>

definition get_download ::
  "module \<Rightarrow> backend \<Rightarrow> s3_vars \<Rightarrow> log \<Rightarrow> unit res \<times> log" where
  "get_download m connection vars lg =
     (case download_s3file m connection (v_bucket vars) (v_object vars) (v_dest vars)
             (v_retries vars) (v_version vars) lg of
        (Stop Raise_Sigv4Required, lg1) \<Rightarrow>
          (let lg2 = GetS3Connection True # lg1 in
           case s3_vars_getitem vars ''obj'' of
             None \<Rightarrow> (Stop (Raise_KeyError ''obj''), lg2)
           | Some obj \<Rightarrow>
               then_do (download_s3file m connection (v_bucket vars) obj (v_dest vars)
                          (v_retries vars) (v_version vars))
                 (\<lambda>u. exit_json (no_result\<lparr> r_failed := Some False \<rparr>)) lg2)
      | (Ret u, lg1) \<Rightarrow> exit_json (no_result\<lparr> r_failed := Some False \<rparr>) lg1
      | r \<Rightarrow> r)"

definition s3_object_do_get ::
  "local_env \<Rightarrow> module \<Rightarrow> backend \<Rightarrow> s3_vars \<Rightarrow> log \<Rightarrow> unit res \<times> log" where
  "s3_object_do_get env m connection vars =
     then_do (key_check m connection (v_bucket vars) (v_object vars) (v_version vars)
                (v_validate vars))
       (\<lambda>keyrtn.
          if \<not> keyrtn then
            (if truthy (v_version vars)
             then fail_json (''Key '' @ v_object vars @ '' with version id '' @
                             the (v_version vars) @ '' does not exist.'')
             else fail_json (''Key '' @ v_object vars @ '' does not exist.''))
          else then_do (get_overwrite_gate env m connection vars)
                 (\<lambda>u. get_download m connection vars))"

definition s3_object_do_getstr ::
  "module \<Rightarrow> backend \<Rightarrow> s3_vars \<Rightarrow> log \<Rightarrow> unit res \<times> log" where
  "s3_object_do_getstr m connection vars =
     (if v_bucket vars \<noteq> [] \<and> v_object vars \<noteq> [] then
        then_do (key_check m connection (v_bucket vars) (v_object vars) (v_version vars)
                   (v_validate vars))
          (\<lambda>keyrtn.
             if keyrtn then
               (\<lambda>lg. case download_s3str m connection (v_bucket vars) (v_object vars)
                              (v_version vars) lg of
                        (Stop Raise_Sigv4Required, lg1) \<Rightarrow>
                          (case s3_vars_getitem vars ''object'' of
                             None \<Rightarrow> (Stop (Raise_KeyError ''object''), GetS3Connection True # lg1)
                           | Some obj \<Rightarrow>
                               download_s3str m connection (v_bucket vars) obj (v_version vars)
                                 (GetS3Connection True # lg1))
                      | r \<Rightarrow> r)
             else if truthy (v_version vars)
             then fail_json (''Key '' @ v_object vars @ '' with version id '' @
                             the (v_version vars) @ '' does not exist.'')
             else fail_json (''Key '' @ v_object vars @ '' does not exist.''))
      else ret ())"

definition s3_object_do_delete ::
  "module \<Rightarrow> backend \<Rightarrow> s3_vars \<Rightarrow> log \<Rightarrow> unit res \<times> log" where
  "s3_object_do_delete m connection vars =
     (if v_bucket vars = [] then fail_json ''Bucket parameter is required.''
      else then_do (delete_bucket m connection (v_bucket vars))
             (\<lambda>deleted.
                if deleted
                then exit_json (no_result\<lparr> r_msg := Some (''Bucket '' @ v_bucket vars @
                                    '' and all keys have been deleted.''),
                                  r_changed := Some True \<rparr>)
                else ret ()))"

section \<open>Dispatch and request validation\<close>

text \<open>
  What \<^verbatim>\<open>main\<close> makes of a handler's end: a handler that returns leads to
  \<^verbatim>\<open>module.exit_json(failed=False)\<close>; an \<^verbatim>\<open>S3ObjectFailure\<close> becomes
  \<^verbatim>\<open>fail_json_aws(e.original_e, e.message)\<close>; the other \<^verbatim>\<open>except\<close> clauses in their order.
\<close>

definition main_try :: "unit res \<times> log \<Rightarrow> stop \<times> log" where
  "main_try r =
     (case r of
        (Ret u, lg) \<Rightarrow> (Exit_json (no_result\<lparr> r_failed := Some False \<rparr>), lg)
      | (Stop (Raise e), lg) \<Rightarrow>
          if e = BotoCoreError ''EndpointConnectionError''
          then (Fail_json_aws e ''Invalid endpoint provided'', lg)
          else if is_boto3_error_code IGNORE_S3_DROP_IN_EXCEPTIONS e
          then (Exit_json (no_result\<lparr> r_failed := Some False \<rparr>), lg)
          else if is_boto3_error_code [''NoSuchTagSet''] e then (Main_returns, lg)
          else if is_boto3_error_code [''NoSuchTagSetError''] e then (Main_returns, lg)
          else (Raise e, lg)
      | (Stop (Raise_S3ObjectFailure msg e), lg) \<Rightarrow> (Fail_json_aws e msg, lg)
      | (Stop s, lg) \<Rightarrow> (s, lg))"

text \<open>What the task reports as \<^verbatim>\<open>changed\<close>: the value the module passed to
  \<^verbatim>\<open>exit_json\<close>, and false when it passed none.\<close>

definition reported_changed :: "result \<Rightarrow> bool" where
  "reported_changed r = (case r_changed r of Some c \<Rightarrow> c | None \<Rightarrow> False)"

text \<open>
  The part of \<^verbatim>\<open>populate_facts\<close> that settles \<^verbatim>\<open>overwrite\<close>: the supplied string, the
  flag \<^verbatim>\<open>HAS_MD5\<close>, and the framework's \<^verbatim>\<open>module.boolean\<close>. The result is the value
  stored in the request, or the failure.
\<close>

definition populate_facts_overwrite :: "module \<Rightarrow> bool \<Rightarrow> string \<Rightarrow> stop + string" where
  "populate_facts_overwrite m HAS_MD5 overwrite =
     (if overwrite = ''different'' \<and> \<not> HAS_MD5
      then Inl (Fail_json ''overwrite=different is unavailable: ETag calculation requires MD5 support''
                  None None)
      else if overwrite \<notin> set [''always'', ''never'', ''different'', ''latest''] then
        (case boolean m overwrite of
           None \<Rightarrow> Inl (Fail_json (''The value '' @ overwrite @ '' is not a valid boolean.'') None None)
         | Some b \<Rightarrow> if b then Inr ''always'' else Inr ''never'')
      else Inr overwrite)"

section \<open>Example requests and backends\<close>

text \<open>A module object outside check mode with no tags requested, and a backend on which
  every call succeeds: the object exists with ETag \<open>abc\<close> and carries the tag \<open>a = 1\<close>.\<close>

definition plain_module :: module where
  "plain_module = \<lparr> check_mode = False, p_tags = None, p_purge_tags = True,
                     p_permission = [''private''], boolean = (\<lambda>v. None) \<rparr>"

definition quiet_s3 :: backend where
  "quiet_s3 = \<lparr>
     s3_head_object = (\<lambda>lg b k v. Inr (Some \<lparr> ETag = ''abc'', LastModified = 100 \<rparr>)),
     s3_head_bucket = (\<lambda>lg b. Inr ()),
     s3_create_bucket = (\<lambda>lg b c. Inr ()),
     s3_wait_bucket_exists = (\<lambda>lg b. Inr ()),
     s3_put_bucket_acl = (\<lambda>lg a b. Inr ()),
     s3_list_object_versions = (\<lambda>lg b. ([], None)),
     s3_list_objects_v2 = (\<lambda>lg b. ([], None)),
     s3_delete_objects = (\<lambda>lg b ks. Inr ()),
     s3_delete_bucket = (\<lambda>lg b. Inr ()),
     s3_put_object_acl = (\<lambda>lg a b k. Inr ()),
     s3_upload_file = (\<lambda>lg f b k. Inr ()),
     s3_upload_fileobj = (\<lambda>lg c b k. Inr ()),
     s3_get_object = (\<lambda>lg b k v. Inr ''hello''),
     s3_download_file = (\<lambda>lg b k d v. Inr ()),
     s3_get_object_tagging = (\<lambda>lg b k v. Inr [(''a'', ''1'')]),
     s3_put_object_tagging = (\<lambda>lg b k t. Inr ()),
     s3_delete_object_tagging = (\<lambda>lg b k. Inr ()),
     s3_generate_presigned_url = (\<lambda>lg c b k x. Inr (''https://'' @ b @ ''/'' @ k)) \<rparr>"

text \<open>A backend that answers every head call with access-denied, and one that answers
  every head call with not-found.\<close>

definition forbidden_s3 :: backend where
  "forbidden_s3 = quiet_s3\<lparr>
     s3_head_object := (\<lambda>lg b k v. Inl (ClientError ''403'' ''Forbidden'')),
     s3_head_bucket := (\<lambda>lg b. Inl (ClientError ''403'' ''Forbidden'')) \<rparr>"

definition missing_s3 :: backend where
  "missing_s3 = quiet_s3\<lparr>
     s3_head_object := (\<lambda>lg b k v. Inl (ClientError ''404'' ''Not Found'')),
     s3_head_bucket := (\<lambda>lg b. Inl (ClientError ''404'' ''Not Found'')) \<rparr>"

text \<open>A backend that remembers tag writes: the tags it reports are those of the most
  recent \<^verbatim>\<open>put_object_tagging\<close> or \<^verbatim>\<open>delete_object_tagging\<close> in the history, and
  \<open>a = 1\<close> before any.\<close>

fun stored_tags :: "log \<Rightarrow> tag_dict" where
  "stored_tags [] = [(''a'', ''1'')]"
| "stored_tags (PutObjectTagging b k t # lg) = t"
| "stored_tags (DeleteObjectTagging b k # lg) = []"
| "stored_tags (ev # lg) = stored_tags lg"

definition remembering_s3 :: backend where
  "remembering_s3 = quiet_s3\<lparr> s3_get_object_tagging := (\<lambda>lg b k v. Inr (stored_tags lg)) \<rparr>"

definition purging_module :: module where
  "purging_module = plain_module\<lparr> p_tags := Some [(''b'', ''2'')], p_purge_tags := True \<rparr>"

definition merging_module :: module where
  "merging_module = plain_module\<lparr> p_tags := Some [(''b'', ''2'')], p_purge_tags := False \<rparr>"

text \<open>A backend that ignores tag writes and always reports the two tags \<open>a = 1\<close> and
  \<open>b = 2\<close>: a superset of a requested \<open>b = 2\<close>.\<close>

definition superset_s3 :: backend where
  "superset_s3 = quiet_s3\<lparr>
     s3_get_object_tagging := (\<lambda>lg b k v. Inr [(''a'', ''1''), (''b'', ''2'')]) \<rparr>"

text \<open>A local machine on which only \<^verbatim>\<open>/tmp/present\<close> exists and every fingerprint of
  local data is \<open>abc\<close>, the ETag \<open>quiet_s3\<close> reports.\<close>

definition plain_env :: local_env where
  "plain_env = \<lparr> path_exists = (\<lambda>p. p = ''/tmp/present''), getmtime = (\<lambda>p. 50),
                  calculate_etag = (\<lambda>f e. Some ''abc''),
                  calculate_etag_content = (\<lambda>c e. Some ''abc''),
                  standard_b64decode = (\<lambda>c. c) \<rparr>"

text \<open>A request for object \<open>k\<close> of bucket \<open>b\<close>, which exists: inline content
  \<open>hello\<close> for a put, and a destination that does not exist yet for a get; overwrite
  is \<open>never\<close> and no retries are asked for.\<close>

definition plain_request :: s3_vars where
  "plain_request = \<lparr> v_bucket = ''b'', v_object = ''k'', v_version = None, v_validate = True,
     v_dest = ''/tmp/absent'', v_overwrite = ''never'', v_retries = 0, v_src = None,
     v_content = Some ''hello'', v_content_base64 = None, v_bucketrtn = True, v_expiry = 600,
     v_location = Some ''us-east-1'', v_acl_disabled = False \<rparr>"

definition checking_module :: module where
  "checking_module = purging_module\<lparr> check_mode := True \<rparr>"

text \<open>A backend that refuses \<^verbatim>\<open>get_object\<close> until the connection has been made again with
  signature version 4.\<close>

definition sigv4_fault :: fault where
  "sigv4_fault = ClientError ''InvalidArgument''
     ''Requests specifying Server Side Encryption with AWS KMS managed keys require AWS Signature Version 4.''"

definition sigv4_s3 :: backend where
  "sigv4_s3 = quiet_s3\<lparr>
     s3_get_object := (\<lambda>lg b k v. if GetS3Connection True \<in> set lg then Inr ''hello''
                                   else Inl sigv4_fault) \<rparr>"

text \<open>A backend whose first \<^verbatim>\<open>download_file\<close> is refused with access-denied and whose
  later ones succeed.\<close>

definition denying_once_s3 :: backend where
  "denying_once_s3 = quiet_s3\<lparr>
     s3_download_file := (\<lambda>lg b k d v. if DownloadFile b k d v \<in> set lg then Inr ()
                                         else Inl (ClientError ''403'' ''Forbidden'')) \<rparr>"

text \<open>A backend without version listing that holds the keys \<open>p/1\<close> and \<open>p/2\<close> in each
  bucket and reports a bucket not-found once it has been deleted.\<close>

definition unversioned_s3 :: backend where
  "unversioned_s3 = quiet_s3\<lparr>
     s3_head_bucket := (\<lambda>lg b. if DeleteBucket b \<in> set lg
                                then Inl (ClientError ''404'' ''Not Found'') else Inr ()),
     s3_list_object_versions :=
       (\<lambda>lg b. ([], Some (ClientError ''NotImplemented'' ''Not implemented''))),
     s3_list_objects_v2 := (\<lambda>lg b. ([[''p/1'', ''p/2'']], None)) \<rparr>"

text \<open>
  The framework's conversion behind \<^verbatim>\<open>module.boolean\<close>, which is not part of this
  repository: a string is lower-cased and stripped, then looked up among the true and
  the false literals; any other string is refused. (The module's documentation of
  \<^verbatim>\<open>overwrite\<close> reads: "Must be a Boolean, always, never, different or latest.")
\<close>

definition ascii_lower :: "char \<Rightarrow> char" where
  "ascii_lower c =
     (let n = (of_char c :: nat) in if 65 \<le> n \<and> n \<le> 90 then char_of (n + 32) else c)"

definition is_space :: "char \<Rightarrow> bool" where
  "is_space c = (c \<in> set [CHR 0x20, CHR 0x09, CHR 0x0A, CHR 0x0B, CHR 0x0C, CHR 0x0D])"

definition strip :: "string \<Rightarrow> string" where
  "strip s = rev (dropWhile is_space (rev (dropWhile is_space s)))"

definition BOOLEANS_TRUE :: "string list" where
  "BOOLEANS_TRUE = [''y'', ''yes'', ''on'', ''1'', ''true'', ''t'']"

definition BOOLEANS_FALSE :: "string list" where
  "BOOLEANS_FALSE = [''n'', ''no'', ''off'', ''0'', ''false'', ''f'']"

definition framework_boolean :: "string \<Rightarrow> bool option" where
  "framework_boolean v =
     (let normalized_value = strip (map ascii_lower v) in
      if normalized_value \<in> set BOOLEANS_TRUE then Some True
      else if normalized_value \<in> set BOOLEANS_FALSE then Some False
      else None)"

definition framework_module :: module where
  "framework_module = plain_module\<lparr> boolean := framework_boolean \<rparr>"

text \<open>A backend on which every \<^verbatim>\<open>download_file\<close> raises the given fault.\<close>

definition broken_download_s3 :: "fault \<Rightarrow> backend" where
  "broken_download_s3 e = quiet_s3\<lparr> s3_download_file := (\<lambda>lg b k d v. Inl e) \<rparr>"

text \<open>A backend that remembers tag writes but reports them only after the caller has
  slept once: the first fetch after a write still sees \<open>a = 1\<close>.\<close>

definition lagging_s3 :: backend where
  "lagging_s3 = quiet_s3\<lparr>
     s3_get_object_tagging :=
       (\<lambda>lg b k v. Inr (if Sleep 5 \<in> set lg then stored_tags lg else [(''a'', ''1'')])) \<rparr>"

section \<open>Kinds of events\<close>


fun is_tag_fetch :: "event \<Rightarrow> bool" where
  "is_tag_fetch (GetObjectTagging b k v) = True"
| "is_tag_fetch ev = False"


fun is_download_attempt :: "event \<Rightarrow> bool" where
  "is_download_attempt (DownloadFile b k d v) = True"
| "is_download_attempt ev = False"

fun is_deletion :: "event \<Rightarrow> bool" where
  "is_deletion (DeleteObjects b ks) = True"
| "is_deletion (DeleteBucket b) = True"
| "is_deletion ev = False"

section \<open>Properties\<close>

subsection \<open>Dictionaries\<close>

lemma dict_eq_iff: "dict_eq a b \<longleftrightarrow> map_of a = map_of b"
proof
  assume h: "dict_eq a b"
  show "map_of a = map_of b"
  proof
    fix k
    show "map_of a k = map_of b k"
    proof (cases "k \<in> set (map fst a @ map fst b)")
      case True
      with h show ?thesis by (simp add: dict_eq_def list_all_iff)
    next
      case False
      then have "map_of a k = None" "map_of b k = None"
        by (simp_all add: map_of_eq_None_iff)
      then show ?thesis by simp
    qed
  qed
next
  assume "map_of a = map_of b"
  then show "dict_eq a b" by (simp add: dict_eq_def list_all_iff)
qed

lemma map_of_dict_update:
  "distinct (map fst b) \<Longrightarrow> map_of (dict_update a b) = map_of a ++ map_of b"
  unfolding dict_update_def
proof (induction b arbitrary: a)
  case Nil
  then show ?case by simp
next
  case (Cons kv b)
  have "map_of (fold (\<lambda>kv d. AList.update (fst kv) (snd kv) d) b (AList.update (fst kv) (snd kv) a))
        = map_of (AList.update (fst kv) (snd kv) a) ++ map_of b"
    using Cons by simp
  also have "\<dots> = (map_of a)(fst kv \<mapsto> snd kv) ++ map_of b"
    by (simp add: update_conv')
  also have "\<dots> = map_of a ++ map_of (kv # b)"
  proof
    fix k
    have none: "map_of b (fst kv) = None"
      using Cons.prems by (simp add: map_of_eq_None_iff)
    show "((map_of a)(fst kv \<mapsto> snd kv) ++ map_of b) k = (map_of a ++ map_of (kv # b)) k"
    proof (cases "k = fst kv")
      case True
      then show ?thesis using none by (simp add: map_add_def)
    next
      case False
      then show ?thesis by (simp add: map_add_def split: option.splits)
    qed
  qed
  finally show ?case by (simp only: fold.simps o_apply)
qed

subsection \<open>Sequencing\<close>


lemma then_do_Stop: "m lg = (Stop s, lg') \<Longrightarrow> then_do m f lg = (Stop s, lg')"
  by (simp add: then_do_def)

lemma then_do_ret: "then_do (ret x) f lg = f x lg"
  by (simp add: then_do_def ret_def)

lemma then_do_exit: "then_do (exit_json r) f lg = (Stop (Exit_json r), lg)"
  by (simp add: then_do_def exit_json_def)

subsection \<open>The polling loop\<close>

lemma wrap_botocore_Ret: "wrap_botocore msg (Ret x, lg) = (Ret x, lg)"
  by (simp add: wrap_botocore_def)

lemma tag_fetch_Inr:
  "s3_get_object_tagging s3 lg bucket obj (version_arg version) = Inr t \<Longrightarrow>
   wrap_botocore msg (get_current_object_tags_dict s3 bucket obj version lg) =
     (Ret t, GetObjectTagging bucket obj (version_arg version) # lg)"
  by (simp add: get_current_object_tags_dict_def api_def wrap_botocore_def)

lemma tag_fetch_log:
  "snd (wrap_botocore msg (get_current_object_tags_dict s3 bucket obj version lg)) =
     GetObjectTagging bucket obj (version_arg version) # lg"
  by (cases "s3_get_object_tagging s3 lg bucket obj (version_arg version)")
     (simp_all add: get_current_object_tags_dict_def api_def wrap_botocore_def)

lemma concat_replicate_shift:
  "concat (replicate n xs) @ xs @ ys = concat (replicate (Suc n) xs) @ ys"
  by (induction n) simp_all

text \<open>The history after \<open>i\<close> polls that did not match: a fetch and a sleep of 5 for each.\<close>

lemma wait_tags_loop_never:
  assumes never: "\<forall>i<Suc n. \<exists>obs.
            s3_get_object_tagging s3
              (concat (replicate i [Sleep 5, GetObjectTagging bucket obj (version_arg version)]) @ lg)
              bucket obj (version_arg version) = Inr obs \<and> \<not> dict_eq obs expected"
  shows "\<exists>last.
     wait_tags_loop s3 bucket obj expected version (Suc n) live lg =
       (Stop (Fail_json ''Object tags failed to apply in the expected time.''
                (Some expected) (Some last)),
        concat (replicate (Suc n) [Sleep 5, GetObjectTagging bucket obj (version_arg version)]) @ lg) \<and>
     s3_get_object_tagging s3
        (concat (replicate n [Sleep 5, GetObjectTagging bucket obj (version_arg version)]) @ lg)
        bucket obj (version_arg version) = Inr last"
  using never
proof (induction n arbitrary: live lg)
  case 0
  then obtain obs where
    o: "s3_get_object_tagging s3 lg bucket obj (version_arg version) = Inr obs"
       "\<not> dict_eq obs expected" by auto
  then show ?case by (simp add: tag_fetch_Inr)
next
  case (Suc n)
  let ?G = "GetObjectTagging bucket obj (version_arg version)"
  have sh: "\<And>k. concat (replicate k [Sleep 5, ?G]) @ Sleep 5 # ?G # lg =
                 concat (replicate (Suc k) [Sleep 5, ?G]) @ lg"
    using concat_replicate_shift [of _ "[Sleep 5, ?G]" lg] by simp
  from Suc.prems [rule_format, of 0] obtain obs where
    o: "s3_get_object_tagging s3 lg bucket obj (version_arg version) = Inr obs"
       "\<not> dict_eq obs expected" by auto
  have later: "\<forall>i<Suc n. \<exists>obs.
            s3_get_object_tagging s3 (concat (replicate i [Sleep 5, ?G]) @ Sleep 5 # ?G # lg)
              bucket obj (version_arg version) = Inr obs \<and> \<not> dict_eq obs expected"
  proof (intro allI impI)
    fix i assume "i < Suc n"
    then have "Suc i < Suc (Suc n)" by simp
    from Suc.prems [rule_format, OF this]
    show "\<exists>obs. s3_get_object_tagging s3 (concat (replicate i [Sleep 5, ?G]) @ Sleep 5 # ?G # lg)
              bucket obj (version_arg version) = Inr obs \<and> \<not> dict_eq obs expected"
      unfolding sh .
  qed
  from Suc.IH [OF later, of "Some obs"] obtain last where
    l: "wait_tags_loop s3 bucket obj expected version (Suc n) (Some obs) (Sleep 5 # ?G # lg) =
          (Stop (Fail_json ''Object tags failed to apply in the expected time.''
                   (Some expected) (Some last)),
           concat (replicate (Suc n) [Sleep 5, ?G]) @ Sleep 5 # ?G # lg)"
       "s3_get_object_tagging s3 (concat (replicate n [Sleep 5, ?G]) @ Sleep 5 # ?G # lg)
          bucket obj (version_arg version) = Inr last"
    by blast
  have "wait_tags_loop s3 bucket obj expected version (Suc (Suc n)) live lg =
          wait_tags_loop s3 bucket obj expected version (Suc n) (Some obs) (Sleep 5 # ?G # lg)"
    using o by (subst wait_tags_loop.simps(2)) (simp add: tag_fetch_Inr del: wait_tags_loop.simps)
  with l sh show ?case by (metis)
qed

text \<open>The loop returns the first observation that equals the expected tags, when it
  comes within the polls that are left.\<close>

lemma wait_tags_loop_accepts:
  assumes "\<forall>i<j. \<exists>obs.
            s3_get_object_tagging s3
              (concat (replicate i [Sleep 5, GetObjectTagging bucket obj (version_arg version)]) @ lg)
              bucket obj (version_arg version) = Inr obs \<and> \<not> dict_eq obs expected"
      and "s3_get_object_tagging s3
              (concat (replicate j [Sleep 5, GetObjectTagging bucket obj (version_arg version)]) @ lg)
              bucket obj (version_arg version) = Inr observed"
      and "dict_eq observed expected"
      and "j < n"
  shows "wait_tags_loop s3 bucket obj expected version n live lg =
           (Ret observed,
            GetObjectTagging bucket obj (version_arg version) #
            concat (replicate j [Sleep 5, GetObjectTagging bucket obj (version_arg version)]) @ lg)"
  using assms
proof (induction j arbitrary: n live lg)
  case 0
  then obtain n' where n: "n = Suc n'" by (cases n) simp_all
  from 0 show ?case unfolding n by (simp add: tag_fetch_Inr)
next
  case (Suc j)
  let ?G = "GetObjectTagging bucket obj (version_arg version)"
  have sh: "\<And>k. concat (replicate k [Sleep 5, ?G]) @ Sleep 5 # ?G # lg =
                 concat (replicate (Suc k) [Sleep 5, ?G]) @ lg"
    using concat_replicate_shift [of _ "[Sleep 5, ?G]" lg] by simp
  from Suc.prems(4) obtain n' where n: "n = Suc n'" "j < n'" by (cases n) simp_all
  from Suc.prems(1) [rule_format, of 0] obtain obs where
    o: "s3_get_object_tagging s3 lg bucket obj (version_arg version) = Inr obs"
       "\<not> dict_eq obs expected" by auto
  have earlier: "\<forall>i<j. \<exists>obs.
            s3_get_object_tagging s3 (concat (replicate i [Sleep 5, ?G]) @ Sleep 5 # ?G # lg)
              bucket obj (version_arg version) = Inr obs \<and> \<not> dict_eq obs expected"
  proof (intro allI impI)
    fix i assume "i < j"
    then have "Suc i < Suc j" by simp
    from Suc.prems(1) [rule_format, OF this]
    show "\<exists>obs. s3_get_object_tagging s3 (concat (replicate i [Sleep 5, ?G]) @ Sleep 5 # ?G # lg)
              bucket obj (version_arg version) = Inr obs \<and> \<not> dict_eq obs expected"
      unfolding sh .
  qed
  have hit: "s3_get_object_tagging s3 (concat (replicate j [Sleep 5, ?G]) @ Sleep 5 # ?G # lg)
               bucket obj (version_arg version) = Inr observed"
    using Suc.prems(2) unfolding sh .
  from Suc.IH [OF earlier hit Suc.prems(3) n(2), of "Some obs"]
  have r: "wait_tags_loop s3 bucket obj expected version n' (Some obs) (Sleep 5 # ?G # lg) =
             (Ret observed, ?G # concat (replicate j [Sleep 5, ?G]) @ Sleep 5 # ?G # lg)" .
  have "wait_tags_loop s3 bucket obj expected version (Suc n') live lg =
          wait_tags_loop s3 bucket obj expected version n' (Some obs) (Sleep 5 # ?G # lg)"
    using o by (subst wait_tags_loop.simps(2)) (simp add: tag_fetch_Inr del: wait_tags_loop.simps)
  with r sh show ?case unfolding n by (metis)
qed

lemma wait_tags_loop_bound:
  "\<exists>new. snd (wait_tags_loop s3 bucket obj expected version n live lg) = new @ lg \<and>
         length (filter is_tag_fetch new) \<le> n \<and>
         list_all (\<lambda>ev. is_tag_fetch ev \<or> ev = Sleep 5) new"
proof (induction n arbitrary: live lg)
  case 0
  then show ?case by simp
next
  case (Suc n)
  let ?G = "GetObjectTagging bucket obj (version_arg version)"
  let ?r = "wrap_botocore ''Failed to get object tags.''
              (get_current_object_tags_dict s3 bucket obj version lg)"
  have lg': "snd ?r = ?G # lg" by (rule tag_fetch_log)
  show ?case
  proof (cases "fst ?r")
    case (Stop s)
    with lg' have "?r = (Stop s, ?G # lg)" by (metis prod.collapse)
    then have "snd (wait_tags_loop s3 bucket obj expected version (Suc n) live lg) = [?G] @ lg"
      by simp
    then show ?thesis by (intro exI [of _ "[?G]"]) simp
  next
    case (Ret cur)
    with lg' have r: "?r = (Ret cur, ?G # lg)" by (metis prod.collapse)
    show ?thesis
    proof (cases "dict_eq cur expected")
      case True
      with r have "snd (wait_tags_loop s3 bucket obj expected version (Suc n) live lg) = [?G] @ lg"
        by simp
      then show ?thesis by (intro exI [of _ "[?G]"]) simp
    next
      case False
      from Suc [of "Some cur" "Sleep 5 # ?G # lg"] obtain new where
        n: "snd (wait_tags_loop s3 bucket obj expected version n (Some cur) (Sleep 5 # ?G # lg)) =
              new @ Sleep 5 # ?G # lg"
           "length (filter is_tag_fetch new) \<le> n"
           "list_all (\<lambda>ev. is_tag_fetch ev \<or> ev = Sleep 5) new" by blast
      from r False n(1)
      have "snd (wait_tags_loop s3 bucket obj expected version (Suc n) live lg) =
              (new @ [Sleep 5, ?G]) @ lg" by simp
      with n(2,3) show ?thesis by (intro exI [of _ "new @ [Sleep 5, ?G]"]) simp
    qed
  qed
qed

lemma wait_tags_loop_Ret:
  "wait_tags_loop s3 bucket obj expected version n live lg = (Ret t, lg') \<Longrightarrow> dict_eq t expected"
proof (induction n arbitrary: live lg)
  case 0
  then show ?case by simp
next
  case (Suc n)
  then show ?case
    by (auto split: prod.splits res.splits if_splits)
qed


text \<open>
  C6. \<open>wait_tags_are_applied\<close> fetches the current tags at most 12 times, and the only
  other events it adds are sleeps of 5. When none of the 12 observations of the run
  equals the expected tags (whatever the store would answer at any other history, and
  whatever it would answer later), it fetches exactly 12 times, sleeping 5 after each
  fetch, and then fails with the requested tags and the tags of the twelfth (last)
  observation; nothing is polled after that.
\<close>

theorem tag_wait_gives_up_after_12:
  "(\<exists>new. snd (wait_tags_are_applied m s3 bucket obj expected version lg) = new @ lg \<and>
          length (filter is_tag_fetch new) \<le> 12 \<and>
          list_all (\<lambda>ev. is_tag_fetch ev \<or> ev = Sleep 5) new) \<and>
   ((\<forall>i<12. \<exists>obs.
        s3_get_object_tagging s3
          (concat (replicate i [Sleep 5, GetObjectTagging bucket obj (version_arg version)]) @ lg)
          bucket obj (version_arg version) = Inr obs \<and> \<not> dict_eq obs expected) \<longrightarrow>
    (\<exists>last.
       wait_tags_are_applied m s3 bucket obj expected version lg =
         (Stop (Fail_json ''Object tags failed to apply in the expected time.''
                  (Some expected) (Some last)),
          concat (replicate 12 [Sleep 5, GetObjectTagging bucket obj (version_arg version)]) @ lg) \<and>
       s3_get_object_tagging s3
         (concat (replicate 11 [Sleep 5, GetObjectTagging bucket obj (version_arg version)]) @ lg)
         bucket obj (version_arg version) = Inr last))"
proof (intro conjI impI)
  show "\<exists>new. snd (wait_tags_are_applied m s3 bucket obj expected version lg) = new @ lg \<and>
          length (filter is_tag_fetch new) \<le> 12 \<and>
          list_all (\<lambda>ev. is_tag_fetch ev \<or> ev = Sleep 5) new"
    unfolding wait_tags_are_applied_def by (rule wait_tags_loop_bound)
next
  assume never: "\<forall>i<12. \<exists>obs.
        s3_get_object_tagging s3
          (concat (replicate i [Sleep 5, GetObjectTagging bucket obj (version_arg version)]) @ lg)
          bucket obj (version_arg version) = Inr obs \<and> \<not> dict_eq obs expected"
  have twelve: "(12::nat) = Suc 11" by simp
  show "\<exists>last.
       wait_tags_are_applied m s3 bucket obj expected version lg =
         (Stop (Fail_json ''Object tags failed to apply in the expected time.''
                  (Some expected) (Some last)),
          concat (replicate 12 [Sleep 5, GetObjectTagging bucket obj (version_arg version)]) @ lg) \<and>
       s3_get_object_tagging s3
         (concat (replicate 11 [Sleep 5, GetObjectTagging bucket obj (version_arg version)]) @ lg)
         bucket obj (version_arg version) = Inr last"
    unfolding wait_tags_are_applied_def
    using wait_tags_loop_never [of 11 s3 bucket obj version lg expected None] never
    unfolding twelve [symmetric] by simp
qed

lemma stored_tags_polls:
  "stored_tags (concat (replicate i [Sleep 5, GetObjectTagging b k v]) @ lg) = stored_tags lg"
  by (induction i) simp_all

theorem tag_wait_gives_up_after_12_witness:
  "wait_tags_are_applied plain_module quiet_s3 ''b'' ''k'' [(''b'', ''2'')] None [] =
     (Stop (Fail_json ''Object tags failed to apply in the expected time.''
              (Some [(''b'', ''2'')]) (Some [(''a'', ''1'')])),
      concat (replicate 12 [Sleep 5, GetObjectTagging ''b'' ''k'' None])) \<and>
   wait_tags_are_applied plain_module remembering_s3 ''b'' ''k'' [(''b'', ''2'')] None [] =
     (Stop (Fail_json ''Object tags failed to apply in the expected time.''
              (Some [(''b'', ''2'')]) (Some [(''a'', ''1'')])),
      concat (replicate 12 [Sleep 5, GetObjectTagging ''b'' ''k'' None])) \<and>
   s3_get_object_tagging remembering_s3 [PutObjectTagging ''b'' ''k'' [(''b'', ''2'')]] ''b'' ''k'' None =
     Inr [(''b'', ''2'')]"
proof -
  have never: "\<forall>i<12. \<exists>obs. s3_get_object_tagging quiet_s3
                  (concat (replicate i [Sleep 5, GetObjectTagging ''b'' ''k'' (version_arg None)]) @ [])
                  ''b'' ''k'' (version_arg None) = Inr obs \<and>
                     \<not> dict_eq obs [(''b'', ''2'')]"
    by (simp add: quiet_s3_def dict_eq_def)
  from tag_wait_gives_up_after_12 [of plain_module quiet_s3 "''b''" "''k''" "[(''b'', ''2'')]" None "[]"]
       never
  obtain last where
    l: "wait_tags_are_applied plain_module quiet_s3 ''b'' ''k'' [(''b'', ''2'')] None [] =
         (Stop (Fail_json ''Object tags failed to apply in the expected time.''
                  (Some [(''b'', ''2'')]) (Some last)),
          concat (replicate 12 [Sleep 5, GetObjectTagging ''b'' ''k'' (version_arg None)]) @ [])"
       "s3_get_object_tagging quiet_s3
         (concat (replicate 11 [Sleep 5, GetObjectTagging ''b'' ''k'' (version_arg None)]) @ [])
         ''b'' ''k'' (version_arg None) = Inr last"
    by blast
  from l(2) have "last = [(''a'', ''1'')]" by (simp add: quiet_s3_def)
  with l(1) have first:
    "wait_tags_are_applied plain_module quiet_s3 ''b'' ''k'' [(''b'', ''2'')] None [] =
     (Stop (Fail_json ''Object tags failed to apply in the expected time.''
              (Some [(''b'', ''2'')]) (Some [(''a'', ''1'')])),
      concat (replicate 12 [Sleep 5, GetObjectTagging ''b'' ''k'' None]))"
    by (simp add: version_arg_def truthy_def)
  have sp: "\<And>i. stored_tags (concat (replicate i
                 [Sleep 5, GetObjectTagging ''b'' ''k'' (version_arg None)])) = [(''a'', ''1'')]"
    using stored_tags_polls [of _ "''b''" "''k''" "version_arg None" "[]"] by simp
  have never': "\<forall>i<12. \<exists>obs. s3_get_object_tagging remembering_s3
                  (concat (replicate i [Sleep 5, GetObjectTagging ''b'' ''k'' (version_arg None)]) @ [])
                  ''b'' ''k'' (version_arg None) = Inr obs \<and>
                     \<not> dict_eq obs [(''b'', ''2'')]"
    by (simp add: remembering_s3_def quiet_s3_def dict_eq_def sp)
  from tag_wait_gives_up_after_12
         [of plain_module remembering_s3 "''b''" "''k''" "[(''b'', ''2'')]" None "[]"] never'
  obtain last' where
    l': "wait_tags_are_applied plain_module remembering_s3 ''b'' ''k'' [(''b'', ''2'')] None [] =
         (Stop (Fail_json ''Object tags failed to apply in the expected time.''
                  (Some [(''b'', ''2'')]) (Some last')),
          concat (replicate 12 [Sleep 5, GetObjectTagging ''b'' ''k'' (version_arg None)]) @ [])"
       "s3_get_object_tagging remembering_s3
         (concat (replicate 11 [Sleep 5, GetObjectTagging ''b'' ''k'' (version_arg None)]) @ [])
         ''b'' ''k'' (version_arg None) = Inr last'"
    by blast
  from l'(2) have "last' = [(''a'', ''1'')]"
    by (simp add: remembering_s3_def quiet_s3_def sp)
  with l'(1) have second:
    "wait_tags_are_applied plain_module remembering_s3 ''b'' ''k'' [(''b'', ''2'')] None [] =
     (Stop (Fail_json ''Object tags failed to apply in the expected time.''
              (Some [(''b'', ''2'')]) (Some [(''a'', ''1'')])),
      concat (replicate 12 [Sleep 5, GetObjectTagging ''b'' ''k'' None]))"
    by (simp add: version_arg_def truthy_def)
  have third: "s3_get_object_tagging remembering_s3 [PutObjectTagging ''b'' ''k'' [(''b'', ''2'')]]
                 ''b'' ''k'' None = Inr [(''b'', ''2'')]"
    by (simp add: remembering_s3_def quiet_s3_def)
  from first second third show ?thesis by blast
qed

subsection \<open>Tag convergence\<close>

lemma snd_then_do_ret: "snd (then_do m (\<lambda>x. ret (g x)) lg) = snd (m lg)"
  by (cases "m lg" rule: prod.exhaust; cases "fst (m lg)")
     (auto simp: then_do_def ret_def split: res.splits)

lemma then_do_ret_Ret:
  "then_do m (\<lambda>x. ret (g x)) lg = (Ret y, lg') \<Longrightarrow> \<exists>x. m lg = (Ret x, lg') \<and> y = g x"
  by (auto simp: then_do_def ret_def split: prod.splits res.splits)

lemma wait_then_flag_log:
  "\<exists>new. snd (then_do (wait_tags_are_applied m s3 bucket obj tags None)
                 (\<lambda>applied. ret (applied, True)) lg) = new @ lg \<and>
         list_all (\<lambda>ev. is_tag_fetch ev \<or> ev = Sleep 5) new"
  using wait_tags_loop_bound [of s3 bucket obj tags None 12 None lg]
  by (auto simp: snd_then_do_ret wait_tags_are_applied_def)

lemma wait_then_flag_Ret:
  "then_do (wait_tags_are_applied m s3 bucket obj tags None)
     (\<lambda>applied. ret (applied, True)) lg = (Ret (t, c), lg') \<Longrightarrow> dict_eq t tags \<and> c"
  by (auto simp: wait_tags_are_applied_def dest!: then_do_ret_Ret wait_tags_loop_Ret)

lemma wait_then_flag_accepts:
  assumes "\<forall>i<j. \<exists>obs.
            s3_get_object_tagging s3
              (concat (replicate i [Sleep 5, GetObjectTagging bucket obj None]) @ lg)
              bucket obj None = Inr obs \<and> \<not> dict_eq obs tags"
      and "s3_get_object_tagging s3
              (concat (replicate j [Sleep 5, GetObjectTagging bucket obj None]) @ lg)
              bucket obj None = Inr observed"
      and "dict_eq observed tags"
      and "j < 12"
  shows "then_do (wait_tags_are_applied m s3 bucket obj tags None)
           (\<lambda>applied. ret (applied, True)) lg =
         (Ret (observed, True),
          GetObjectTagging bucket obj None #
          concat (replicate j [Sleep 5, GetObjectTagging bucket obj None]) @ lg)"
proof -
  have v: "version_arg None = None" by (simp add: version_arg_def truthy_def)
  from wait_tags_loop_accepts [of j s3 bucket obj None lg tags observed 12 None, unfolded v,
         OF assms]
  show ?thesis by (simp add: wait_tags_are_applied_def then_do_def ret_def)
qed

lemma tag_write_step_accepts:
  assumes "step = (\<lambda>lg. wrap_botocore msg (api (reply lg) ev lg))"
      and "reply lg = Inr ()"
      and "\<forall>i<j. \<exists>obs.
            s3_get_object_tagging s3
              (concat (replicate i [Sleep 5, GetObjectTagging bucket obj None]) @ ev # lg)
              bucket obj None = Inr obs \<and> \<not> dict_eq obs tags"
      and "s3_get_object_tagging s3
              (concat (replicate j [Sleep 5, GetObjectTagging bucket obj None]) @ ev # lg)
              bucket obj None = Inr observed"
      and "dict_eq observed tags"
      and "j < 12"
  shows "then_do step
           (\<lambda>u. then_do (wait_tags_are_applied m s3 bucket obj tags None)
                  (\<lambda>applied. ret (applied, True))) lg =
         (Ret (observed, True),
          GetObjectTagging bucket obj None #
          concat (replicate j [Sleep 5, GetObjectTagging bucket obj None]) @ ev # lg)"
proof -
  have "then_do step
           (\<lambda>u. then_do (wait_tags_are_applied m s3 bucket obj tags None)
                  (\<lambda>applied. ret (applied, True))) lg =
        then_do (wait_tags_are_applied m s3 bucket obj tags None)
                  (\<lambda>applied. ret (applied, True)) (ev # lg)"
    using assms(2) by (simp add: assms(1) then_do_def api_def wrap_botocore_def)
  with wait_then_flag_accepts [OF assms(3-6)] show ?thesis by simp
qed

lemma ensure_tags_unfold:
  assumes "p_tags m = Some desired"
      and "s3_get_object_tagging client lg bucket obj None = Inr current"
  shows "ensure_tags client m bucket obj lg =
     (let tags = target_tags (p_purge_tags m) current desired;
          lg1 = GetObjectTagging bucket obj None # lg in
      if \<not> dict_eq current tags then
        then_do
          (if tags \<noteq> [] then
             (\<lambda>lg. wrap_botocore ''Failed to update object tags.''
                     (put_object_tagging client bucket obj tags lg))
           else if p_purge_tags m then
             (\<lambda>lg. wrap_botocore ''Failed to delete object tags.''
                     (delete_object_tagging client bucket obj lg))
           else ret ())
          (\<lambda>u. then_do (wait_tags_are_applied m client bucket obj tags None)
                 (\<lambda>applied. ret (applied, True))) lg1
      else (Ret (current, False), lg1))"
  using assms
  by (simp add: ensure_tags_def then_do_def get_current_object_tags_dict_def api_def
        wrap_botocore_def version_arg_def truthy_def Let_def ret_def)

lemma tag_write_step:
  assumes "step = (\<lambda>lg. wrap_botocore msg (api (reply lg) ev lg))"
  shows "\<exists>new. snd (then_do step
                  (\<lambda>u. then_do (wait_tags_are_applied m s3 bucket obj tags None)
                         (\<lambda>applied. ret (applied, True))) lg) = new @ ev # lg \<and>
               list_all (\<lambda>e. is_tag_fetch e \<or> e = Sleep 5) new"
proof (cases "reply lg")
  case (Inl e)
  then have "snd (then_do step
                  (\<lambda>u. then_do (wait_tags_are_applied m s3 bucket obj tags None)
                         (\<lambda>applied. ret (applied, True))) lg) = [] @ ev # lg"
    by (simp add: assms then_do_def api_def wrap_botocore_def)
  then show ?thesis by (intro exI [of _ "[]"]) simp
next
  case (Inr u)
  then have "then_do step
                  (\<lambda>u. then_do (wait_tags_are_applied m s3 bucket obj tags None)
                         (\<lambda>applied. ret (applied, True))) lg =
             then_do (wait_tags_are_applied m s3 bucket obj tags None)
                         (\<lambda>applied. ret (applied, True)) (ev # lg)"
    by (simp add: assms then_do_def api_def wrap_botocore_def)
  then show ?thesis using wait_then_flag_log [of m s3 bucket obj tags "ev # lg"] by simp
qed

lemma tag_write_step_Ret:
  assumes "step = (\<lambda>lg. wrap_botocore msg (api (reply lg) ev lg))"
      and "then_do step
                  (\<lambda>u. then_do (wait_tags_are_applied m s3 bucket obj tags None)
                         (\<lambda>applied. ret (applied, True))) lg = (Ret (t, c), lg')"
  shows "dict_eq t tags \<and> c"
proof (cases "reply lg")
  case (Inl e)
  with assms show ?thesis
    by (simp add: then_do_def api_def wrap_botocore_def split: if_splits)
next
  case (Inr u)
  with assms(2) have "then_do (wait_tags_are_applied m s3 bucket obj tags None)
                         (\<lambda>applied. ret (applied, True)) (ev # lg) = (Ret (t, c), lg')"
    by (simp add: assms(1) then_do_def api_def wrap_botocore_def)
  then show ?thesis by (rule wait_then_flag_Ret)
qed

lemma update_not_Nil: "AList.update k v d \<noteq> []"
  by (cases d) simp_all

lemma fold_update_not_Nil:
  "d \<noteq> [] \<Longrightarrow> fold (\<lambda>kv d. AList.update (fst kv) (snd kv) d) b d \<noteq> []"
  by (induction b arbitrary: d) (simp_all add: update_not_Nil)

lemma dict_update_Nil: "dict_update a b = [] \<Longrightarrow> a = [] \<and> b = []"
proof (cases b)
  case Nil
  assume "dict_update a b = []"
  with Nil show ?thesis by (simp add: dict_update_def)
next
  case (Cons kv b')
  assume "dict_update a b = []"
  with Cons fold_update_not_Nil [OF update_not_Nil, of b' "fst kv" "snd kv" a]
  show ?thesis by (simp add: dict_update_def)
qed


text \<open>
  C2. A tag convergence (\<open>ensure_tags\<close>) with desired tags set, whose first fetch yields
  the current tags:
  \<^item> the target is the desired tags when \<open>purge_tags\<close> is set, and otherwise the current
    tags overridden by the desired ones (for a dict, whose keys are distinct);
  \<^item> when the target equals the current tags, the fetch is the only call and the
    result is unchanged;
  \<^item> otherwise a non-empty target is written by one \<^verbatim>\<open>put_object_tagging\<close> of the whole
    target, and an empty target (which needs \<open>purge_tags\<close>) by one
    \<^verbatim>\<open>delete_object_tagging\<close>; after the write only fetches and sleeps follow;
  \<^item> the function returns changed only with observed tags equal to the target as dicts,
    and unchanged only with the current tags, equal to the target;
  \<^item> and when the write succeeds and, within the 12 polls, an observation equals the
    target as a dict after observations that do not, the function returns that
    observation with changed set, having polled no further.
\<close>

theorem ensure_tags_converges:
  assumes "p_tags m = Some desired"
      and "s3_get_object_tagging client lg bucket obj None = Inr current"
      and "target = target_tags (p_purge_tags m) current desired"
      and "lg1 = GetObjectTagging bucket obj None # lg"
  shows
   "(p_purge_tags m \<longrightarrow> target = desired) \<and>
    (\<not> p_purge_tags m \<and> distinct (map fst desired) \<longrightarrow>
       map_of target = map_of current ++ map_of desired) \<and>
    (map_of target = map_of current \<longrightarrow>
       ensure_tags client m bucket obj lg = (Ret (current, False), lg1)) \<and>
    (map_of target \<noteq> map_of current \<and> target \<noteq> [] \<longrightarrow>
       (\<exists>new. snd (ensure_tags client m bucket obj lg) =
                 new @ PutObjectTagging bucket obj target # lg1 \<and>
              list_all (\<lambda>ev. is_tag_fetch ev \<or> ev = Sleep 5) new)) \<and>
    (map_of target \<noteq> map_of current \<and> target = [] \<longrightarrow>
       p_purge_tags m \<and>
       (\<exists>new. snd (ensure_tags client m bucket obj lg) =
                 new @ DeleteObjectTagging bucket obj # lg1 \<and>
              list_all (\<lambda>ev. is_tag_fetch ev \<or> ev = Sleep 5) new)) \<and>
    (\<forall>t c lgf. ensure_tags client m bucket obj lg = (Ret (t, c), lgf) \<longrightarrow>
       (if c then map_of t = map_of target \<and> map_of target \<noteq> map_of current
        else t = current \<and> map_of target = map_of current \<and> lgf = lg1)) \<and>
    (map_of target \<noteq> map_of current \<and>
     written = (if target \<noteq> [] then PutObjectTagging bucket obj target
                else DeleteObjectTagging bucket obj) # lg1 \<and>
     (if target \<noteq> [] then s3_put_object_tagging client lg1 bucket obj target
      else s3_delete_object_tagging client lg1 bucket obj) = Inr () \<and>
     j < 12 \<and>
     (\<forall>i<j. \<exists>obs.
        s3_get_object_tagging client
          (concat (replicate i [Sleep 5, GetObjectTagging bucket obj None]) @ written)
          bucket obj None = Inr obs \<and> map_of obs \<noteq> map_of target) \<and>
     s3_get_object_tagging client
       (concat (replicate j [Sleep 5, GetObjectTagging bucket obj None]) @ written)
       bucket obj None = Inr observed \<and>
     map_of observed = map_of target \<longrightarrow>
       ensure_tags client m bucket obj lg =
         (Ret (observed, True),
          GetObjectTagging bucket obj None #
          concat (replicate j [Sleep 5, GetObjectTagging bucket obj None]) @ written))"
proof -
  let ?wait = "\<lambda>u::unit. then_do (wait_tags_are_applied m client bucket obj target None)
                 (\<lambda>applied. ret (applied, True))"
  let ?put = "\<lambda>lg. wrap_botocore ''Failed to update object tags.''
                     (put_object_tagging client bucket obj target lg)"
  let ?del = "\<lambda>lg. wrap_botocore ''Failed to delete object tags.''
                     (delete_object_tagging client bucket obj lg)"
  note unf = ensure_tags_unfold [OF assms(1,2), folded assms(3), unfolded Let_def, folded assms(4)]
  have put: "?put = (\<lambda>lg. wrap_botocore ''Failed to update object tags.''
               (api (s3_put_object_tagging client lg bucket obj target)
                    (PutObjectTagging bucket obj target) lg))"
    by (simp add: put_object_tagging_def)
  have del: "?del = (\<lambda>lg. wrap_botocore ''Failed to delete object tags.''
               (api (s3_delete_object_tagging client lg bucket obj)
                    (DeleteObjectTagging bucket obj) lg))"
    by (simp add: delete_object_tagging_def)
  have eq: "dict_eq current target \<longleftrightarrow> map_of target = map_of current"
    by (auto simp: dict_eq_iff)
  have purge_needed: "p_purge_tags m" if "map_of target \<noteq> map_of current" "target = []"
  proof (rule ccontr)
    assume "\<not> p_purge_tags m"
    with assms(3) that(2) have "dict_update current desired = []" by (simp add: target_tags_def)
    then have "current = []" by (auto dest: dict_update_Nil)
    with that show False by simp
  qed
  have p1: "p_purge_tags m \<longrightarrow> target = desired"
    by (simp add: assms(3) target_tags_def)
  have p2: "\<not> p_purge_tags m \<and> distinct (map fst desired) \<longrightarrow>
       map_of target = map_of current ++ map_of desired"
    by (simp add: assms(3) target_tags_def map_of_dict_update)
  have p3: "map_of target = map_of current \<longrightarrow>
       ensure_tags client m bucket obj lg = (Ret (current, False), lg1)"
    using unf eq by simp
  have unf_ne: "ensure_tags client m bucket obj lg =
       then_do (if target \<noteq> [] then ?put else if p_purge_tags m then ?del else ret ()) ?wait lg1"
    if "map_of target \<noteq> map_of current"
    using unf eq that by simp
  have by_put: "ensure_tags client m bucket obj lg = then_do ?put ?wait lg1"
    if "map_of target \<noteq> map_of current" "target \<noteq> []"
    using unf_ne [OF that(1)] by (simp only: if_P [OF that(2)])
  have by_del: "ensure_tags client m bucket obj lg = then_do ?del ?wait lg1"
    if "map_of target \<noteq> map_of current" "target = []"
  proof -
    have nt: "\<not> target \<noteq> []" using that(2) by simp
    have pg: "p_purge_tags m" using purge_needed that by blast
    show ?thesis using unf_ne [OF that(1)] by (simp only: if_not_P [OF nt] if_P [OF pg])
  qed
  have p4: "map_of target \<noteq> map_of current \<and> target \<noteq> [] \<longrightarrow>
       (\<exists>new. snd (ensure_tags client m bucket obj lg) =
                 new @ PutObjectTagging bucket obj target # lg1 \<and>
              list_all (\<lambda>ev. is_tag_fetch ev \<or> ev = Sleep 5) new)"
  proof
    assume a: "map_of target \<noteq> map_of current \<and> target \<noteq> []"
    then have e: "ensure_tags client m bucket obj lg = then_do ?put ?wait lg1"
      using by_put by blast
    show "\<exists>new. snd (ensure_tags client m bucket obj lg) =
                 new @ PutObjectTagging bucket obj target # lg1 \<and>
              list_all (\<lambda>ev. is_tag_fetch ev \<or> ev = Sleep 5) new"
      unfolding e by (rule tag_write_step [OF put])
  qed
  have p5: "map_of target \<noteq> map_of current \<and> target = [] \<longrightarrow>
       p_purge_tags m \<and>
       (\<exists>new. snd (ensure_tags client m bucket obj lg) =
                 new @ DeleteObjectTagging bucket obj # lg1 \<and>
              list_all (\<lambda>ev. is_tag_fetch ev \<or> ev = Sleep 5) new)"
  proof
    assume a: "map_of target \<noteq> map_of current \<and> target = []"
    then have pg: "p_purge_tags m" using purge_needed by blast
    from a have e: "ensure_tags client m bucket obj lg = then_do ?del ?wait lg1"
      using by_del by blast
    have "\<exists>new. snd (ensure_tags client m bucket obj lg) =
                 new @ DeleteObjectTagging bucket obj # lg1 \<and>
              list_all (\<lambda>ev. is_tag_fetch ev \<or> ev = Sleep 5) new"
      unfolding e by (rule tag_write_step [OF del])
    with pg show "p_purge_tags m \<and>
       (\<exists>new. snd (ensure_tags client m bucket obj lg) =
                 new @ DeleteObjectTagging bucket obj # lg1 \<and>
              list_all (\<lambda>ev. is_tag_fetch ev \<or> ev = Sleep 5) new)" by blast
  qed
  have p6: "\<forall>t c lgf. ensure_tags client m bucket obj lg = (Ret (t, c), lgf) \<longrightarrow>
       (if c then map_of t = map_of target \<and> map_of target \<noteq> map_of current
        else t = current \<and> map_of target = map_of current \<and> lgf = lg1)"
  proof (intro allI impI)
    fix t c lgf
    assume r: "ensure_tags client m bucket obj lg = (Ret (t, c), lgf)"
    show "if c then map_of t = map_of target \<and> map_of target \<noteq> map_of current
          else t = current \<and> map_of target = map_of current \<and> lgf = lg1"
    proof (cases "map_of target = map_of current")
      case True
      with p3 r show ?thesis by simp
    next
      case False
      have "dict_eq t target \<and> c"
      proof (cases "target = []")
        case True
        from r by_del [OF False True]
        have "then_do ?del ?wait lg1 = (Ret (t, c), lgf)" by simp
        then show ?thesis by (rule tag_write_step_Ret [OF del])
      next
        case ne: False
        from r by_put [OF False ne]
        have "then_do ?put ?wait lg1 = (Ret (t, c), lgf)" by simp
        then show ?thesis by (rule tag_write_step_Ret [OF put])
      qed
      with False show ?thesis by (simp add: dict_eq_iff)
    qed
  qed
  have p7: "map_of target \<noteq> map_of current \<and>
     written = (if target \<noteq> [] then PutObjectTagging bucket obj target
                else DeleteObjectTagging bucket obj) # lg1 \<and>
     (if target \<noteq> [] then s3_put_object_tagging client lg1 bucket obj target
      else s3_delete_object_tagging client lg1 bucket obj) = Inr () \<and>
     j < 12 \<and>
     (\<forall>i<j. \<exists>obs.
        s3_get_object_tagging client
          (concat (replicate i [Sleep 5, GetObjectTagging bucket obj None]) @ written)
          bucket obj None = Inr obs \<and> map_of obs \<noteq> map_of target) \<and>
     s3_get_object_tagging client
       (concat (replicate j [Sleep 5, GetObjectTagging bucket obj None]) @ written)
       bucket obj None = Inr observed \<and>
     map_of observed = map_of target \<longrightarrow>
       ensure_tags client m bucket obj lg =
         (Ret (observed, True),
          GetObjectTagging bucket obj None #
          concat (replicate j [Sleep 5, GetObjectTagging bucket obj None]) @ written)"
  proof
    assume a: "map_of target \<noteq> map_of current \<and>
     written = (if target \<noteq> [] then PutObjectTagging bucket obj target
                else DeleteObjectTagging bucket obj) # lg1 \<and>
     (if target \<noteq> [] then s3_put_object_tagging client lg1 bucket obj target
      else s3_delete_object_tagging client lg1 bucket obj) = Inr () \<and>
     j < 12 \<and>
     (\<forall>i<j. \<exists>obs.
        s3_get_object_tagging client
          (concat (replicate i [Sleep 5, GetObjectTagging bucket obj None]) @ written)
          bucket obj None = Inr obs \<and> map_of obs \<noteq> map_of target) \<and>
     s3_get_object_tagging client
       (concat (replicate j [Sleep 5, GetObjectTagging bucket obj None]) @ written)
       bucket obj None = Inr observed \<and>
     map_of observed = map_of target"
    then have ne: "map_of target \<noteq> map_of current" and j: "j < 12"
      and hit: "dict_eq observed target" by (simp_all add: dict_eq_iff)
    show "ensure_tags client m bucket obj lg =
         (Ret (observed, True),
          GetObjectTagging bucket obj None #
          concat (replicate j [Sleep 5, GetObjectTagging bucket obj None]) @ written)"
    proof (cases "target = []")
      case True
      from a True have w: "written = DeleteObjectTagging bucket obj # lg1"
        and ok: "s3_delete_object_tagging client lg1 bucket obj = Inr ()" by simp_all
      from a have early: "\<forall>i<j. \<exists>obs.
        s3_get_object_tagging client
          (concat (replicate i [Sleep 5, GetObjectTagging bucket obj None]) @
           DeleteObjectTagging bucket obj # lg1)
          bucket obj None = Inr obs \<and> \<not> dict_eq obs target"
        unfolding w dict_eq_iff by blast
      from a have at: "s3_get_object_tagging client
          (concat (replicate j [Sleep 5, GetObjectTagging bucket obj None]) @
           DeleteObjectTagging bucket obj # lg1)
          bucket obj None = Inr observed"
        unfolding w by blast
      from tag_write_step_accepts [OF del ok early at hit j, of m]
      show ?thesis unfolding by_del [OF ne True] w .
    next
      case False
      from a False have w: "written = PutObjectTagging bucket obj target # lg1"
        and ok: "s3_put_object_tagging client lg1 bucket obj target = Inr ()" by simp_all
      from a have early: "\<forall>i<j. \<exists>obs.
        s3_get_object_tagging client
          (concat (replicate i [Sleep 5, GetObjectTagging bucket obj None]) @
           PutObjectTagging bucket obj target # lg1)
          bucket obj None = Inr obs \<and> \<not> dict_eq obs target"
        unfolding w dict_eq_iff by blast
      from a have at: "s3_get_object_tagging client
          (concat (replicate j [Sleep 5, GetObjectTagging bucket obj None]) @
           PutObjectTagging bucket obj target # lg1)
          bucket obj None = Inr observed"
        unfolding w by blast
      from tag_write_step_accepts [OF put ok early at hit j, of m]
      show ?thesis unfolding by_put [OF ne False] w .
    qed
  qed
  from p1 p2 p3 p4 p5 p6 p7 show ?thesis by blast
qed

lemmas tag_eval =
  ensure_tags_def then_do_def wrap_botocore_def get_current_object_tags_dict_def api_def
  remembering_s3_def superset_s3_def quiet_s3_def purging_module_def merging_module_def
  plain_module_def target_tags_def dict_eq_def dict_update_def put_object_tagging_def
  delete_object_tagging_def wait_tags_are_applied_def eval_nat_numeral ret_def
  version_arg_def truthy_def is_botocore_def Let_def

theorem ensure_tags_converges_witness:
  "ensure_tags remembering_s3 purging_module ''b'' ''k'' [] =
     (Ret ([(''b'', ''2'')], True),
      [GetObjectTagging ''b'' ''k'' None, PutObjectTagging ''b'' ''k'' [(''b'', ''2'')],
       GetObjectTagging ''b'' ''k'' None]) \<and>
   ensure_tags remembering_s3 merging_module ''b'' ''k'' [] =
     (Ret ([(''a'', ''1''), (''b'', ''2'')], True),
      [GetObjectTagging ''b'' ''k'' None,
       PutObjectTagging ''b'' ''k'' [(''a'', ''1''), (''b'', ''2'')],
       GetObjectTagging ''b'' ''k'' None]) \<and>
   map_of (target_tags False [(''a'', ''1'')] [(''b'', ''2'')]) =
     map_of [(''a'', ''1'')] ++ map_of [(''b'', ''2'')] \<and>
   fst (ensure_tags superset_s3 purging_module ''b'' ''k'' []) =
     Stop (Fail_json ''Object tags failed to apply in the expected time.''
             (Some [(''b'', ''2'')]) (Some [(''a'', ''1''), (''b'', ''2'')])) \<and>
   ensure_tags lagging_s3 purging_module ''b'' ''k'' [] =
     (Ret ([(''b'', ''2'')], True),
      [GetObjectTagging ''b'' ''k'' None, Sleep 5, GetObjectTagging ''b'' ''k'' None,
       PutObjectTagging ''b'' ''k'' [(''b'', ''2'')], GetObjectTagging ''b'' ''k'' None])"
proof -
  have h1: "p_tags purging_module = Some [(''b'', ''2'')]"
    by (simp add: purging_module_def plain_module_def)
  have h2: "s3_get_object_tagging remembering_s3 [] ''b'' ''k'' None = Inr [(''a'', ''1'')]"
    by (simp add: remembering_s3_def quiet_s3_def)
  have h3: "p_tags merging_module = Some [(''b'', ''2'')]"
    by (simp add: merging_module_def plain_module_def)
  have h4: "s3_get_object_tagging lagging_s3 [] ''b'' ''k'' None = Inr [(''a'', ''1'')]"
    by (simp add: lagging_s3_def quiet_s3_def)
  have np: "\<not> p_purge_tags merging_module" "distinct (map fst [(''b'', ''2'')])"
    by (simp_all add: merging_module_def plain_module_def)
  have tg: "target_tags (p_purge_tags purging_module) [(''a'', ''1'')] [(''b'', ''2'')] =
              [(''b'', ''2'')]"
    by (simp add: target_tags_def purging_module_def plain_module_def)
  note purge = ensure_tags_converges [OF h1 h2 refl refl]
  note merge = ensure_tags_converges [OF h3 h2 refl refl]
  note lag = ensure_tags_converges [OF h1 h4 refl refl,
    where written = "[PutObjectTagging ''b'' ''k'' [(''b'', ''2'')], GetObjectTagging ''b'' ''k'' None]"
      and j = 1 and observed = "[(''b'', ''2'')]"]
  have e1: "ensure_tags remembering_s3 purging_module ''b'' ''k'' [] =
     (Ret ([(''b'', ''2'')], True),
      [GetObjectTagging ''b'' ''k'' None, PutObjectTagging ''b'' ''k'' [(''b'', ''2'')],
       GetObjectTagging ''b'' ''k'' None])"
    by (simp add: tag_eval)
  have e2: "ensure_tags remembering_s3 merging_module ''b'' ''k'' [] =
     (Ret ([(''a'', ''1''), (''b'', ''2'')], True),
      [GetObjectTagging ''b'' ''k'' None,
       PutObjectTagging ''b'' ''k'' [(''a'', ''1''), (''b'', ''2'')],
       GetObjectTagging ''b'' ''k'' None])"
    by (simp add: tag_eval)
  have e3: "fst (ensure_tags superset_s3 purging_module ''b'' ''k'' []) =
     Stop (Fail_json ''Object tags failed to apply in the expected time.''
             (Some [(''b'', ''2'')]) (Some [(''a'', ''1''), (''b'', ''2'')]))"
    by (simp add: tag_eval)
  from merge np have e4: "map_of (target_tags (p_purge_tags merging_module) [(''a'', ''1'')] [(''b'', ''2'')]) =
     map_of [(''a'', ''1'')] ++ map_of [(''b'', ''2'')]" by blast
  from np(1) e4 have e4': "map_of (target_tags False [(''a'', ''1'')] [(''b'', ''2'')]) =
     map_of [(''a'', ''1'')] ++ map_of [(''b'', ''2'')]" by simp
  have e5: "ensure_tags lagging_s3 purging_module ''b'' ''k'' [] =
     (Ret ([(''b'', ''2'')], True),
      [GetObjectTagging ''b'' ''k'' None, Sleep 5, GetObjectTagging ''b'' ''k'' None,
       PutObjectTagging ''b'' ''k'' [(''b'', ''2'')], GetObjectTagging ''b'' ''k'' None])"
  proof -
    let ?written = "[PutObjectTagging ''b'' ''k'' [(''b'', ''2'')],
                     GetObjectTagging ''b'' ''k'' None]"
    have "map_of [(''b'', ''2'')] ''b'' \<noteq> map_of [(''a'', ''1'')] ''b''" by simp
    then have q1: "map_of [(''b'', ''2'')] \<noteq> map_of [(''a'', ''1'')]" by metis
    have q2: "?written =
        (if [(''b'', ''2'')] \<noteq> [] then PutObjectTagging ''b'' ''k'' [(''b'', ''2'')]
         else DeleteObjectTagging ''b'' ''k'') # [GetObjectTagging ''b'' ''k'' None]"
      by simp
    have q3: "(if [(''b'', ''2'')] \<noteq> []
               then s3_put_object_tagging lagging_s3 [GetObjectTagging ''b'' ''k'' None]
                      ''b'' ''k'' [(''b'', ''2'')]
               else s3_delete_object_tagging lagging_s3 [GetObjectTagging ''b'' ''k'' None]
                      ''b'' ''k'') = Inr ()"
      by (simp add: lagging_s3_def quiet_s3_def)
    have q4: "(1::nat) < 12" by simp
    have "map_of [(''a'', ''1'')] ''b'' \<noteq> map_of [(''b'', ''2'')] ''b''" by simp
    then have q5': "map_of [(''a'', ''1'')] \<noteq> map_of [(''b'', ''2'')]" by metis
    have q5: "\<forall>i<(1::nat). \<exists>obs.
        s3_get_object_tagging lagging_s3
          (concat (replicate i [Sleep 5, GetObjectTagging ''b'' ''k'' None]) @ ?written)
          ''b'' ''k'' None = Inr obs \<and> map_of obs \<noteq> map_of [(''b'', ''2'')]"
      using q5' by (simp add: lagging_s3_def quiet_s3_def)
    have q6: "s3_get_object_tagging lagging_s3
          (concat (replicate 1 [Sleep 5, GetObjectTagging ''b'' ''k'' None]) @ ?written)
          ''b'' ''k'' None = Inr [(''b'', ''2'')]"
      by (simp add: lagging_s3_def quiet_s3_def)
    from lag [unfolded tg] q1 q2 q3 q4 q5 q6
    have "ensure_tags lagging_s3 purging_module ''b'' ''k'' [] =
         (Ret ([(''b'', ''2'')], True),
          GetObjectTagging ''b'' ''k'' None #
          concat (replicate 1 [Sleep 5, GetObjectTagging ''b'' ''k'' None]) @ ?written)"
      by blast
    then show ?thesis by simp
  qed
  from purge e1 e2 e3 e4' e5 show ?thesis by blast
qed

subsection \<open>The put handler\<close>















lemmas request_eval =
  plain_request_def plain_env_def checking_module_def sigv4_s3_def sigv4_fault_def
  denying_once_s3_def unversioned_s3_def missing_s3_def forbidden_s3_def

lemmas put_eval =
  s3_object_do_put_def key_check_def etag_compare_def get_etag_def get_binary_content_def
  get_download_url_def exit_json_def fail_json_def path_check_def no_result_def


text \<open>
  In check mode the transfer, the bucket creation, the bucket deletion and the downloads
  are guarded: they exit before any call is issued.
\<close>

lemma check_mode_guards:
  assumes "check_mode m"
  shows "snd (upload_s3file m s3 bucket obj expiry src content acl_disabled lg) = lg"
    and "snd (create_bucket m s3 bucket location lg) = lg"
    and "snd (delete_bucket m s3 bucket lg) = lg"
    and "snd (download_s3file m s3 bucket obj dest retries version lg) = lg"
    and "snd (download_s3str m s3 bucket obj version lg) = lg"
  using assms
  by (simp_all add: upload_s3file_def create_bucket_def delete_bucket_def download_s3file_def
        download_s3str_def exit_json_def)

text \<open>
  C4 (the put skip branch). \<open>ensure_tags\<close> has no check-mode guard. A put in check
  mode on a present object under \<open>overwrite = never\<close>, asking for the tag \<open>b = 2\<close>
  where the object carries \<open>a = 1\<close>, issues \<^verbatim>\<open>put_object_tagging\<close>: the tags stored
  remotely change from \<open>a = 1\<close> to \<open>b = 2\<close>, where a dry run should leave the remote
  state unchanged.
\<close>

theorem check_mode_put_writes_tags:
  "check_mode checking_module \<and>
   s3_object_do_put plain_env checking_module remembering_s3 plain_request [] =
     (Stop (Exit_json (no_result\<lparr> r_msg := Some ''Download url:'', r_url := Some ''https://b/k'',
              r_tags := Some [(''b'', ''2'')], r_expiry := Some 600, r_changed := Some True \<rparr>)),
      [GeneratePresignedUrl ''get_object'' ''b'' ''k'' 600, GetObjectTagging ''b'' ''k'' None,
       PutObjectTagging ''b'' ''k'' [(''b'', ''2'')], GetObjectTagging ''b'' ''k'' None,
       HeadObject ''b'' ''k'' None]) \<and>
   stored_tags [] = [(''a'', ''1'')] \<and>
   stored_tags (snd (s3_object_do_put plain_env checking_module remembering_s3 plain_request [])) =
     [(''b'', ''2'')]"
  by (simp add: put_eval tag_eval request_eval)

subsection \<open>The signature fallback of the downloads\<close>

lemmas get_eval =
  s3_object_do_get_def s3_object_do_getstr_def get_overwrite_gate_def get_download_def
  download_s3file_def download_s3str_def s3_vars_getitem_def main_try_def
  is_boto3_error_code_def is_boto3_error_message_def is_SSLError_def upto.simps

text \<open>In \<open>s3_object_do_get\<close> a first download that raises \<^verbatim>\<open>Sigv4Required\<close> is followed
  by one new connection and then by \<^verbatim>\<open>KeyError\<close>: the second download is never called.\<close>

lemma get_download_after_sigv4:
  assumes "download_s3file m s3 (v_bucket vars) (v_object vars) (v_dest vars) (v_retries vars)
             (v_version vars) lg = (Stop Raise_Sigv4Required, lg1)"
  shows "get_download m s3 vars lg = (Stop (Raise_KeyError ''obj''), GetS3Connection True # lg1)"
  using assms by (simp add: get_download_def s3_vars_getitem_def)

text \<open>In \<open>s3_object_do_getstr\<close> the same fault is followed by one new connection and the
  whole download again.\<close>

lemma getstr_after_sigv4:
  assumes "v_bucket vars \<noteq> []" "v_object vars \<noteq> []"
      and "key_check m s3 (v_bucket vars) (v_object vars) (v_version vars) (v_validate vars) lg =
             (Ret True, lg1)"
      and "download_s3str m s3 (v_bucket vars) (v_object vars) (v_version vars) lg1 =
             (Stop Raise_Sigv4Required, lg2)"
  shows "s3_object_do_getstr m s3 vars lg =
           download_s3str m s3 (v_bucket vars) (v_object vars) (v_version vars)
             (GetS3Connection True # lg2)"
  using assms by (simp add: s3_object_do_getstr_def then_do_def s3_vars_getitem_def)

text \<open>
  C3 (the get path). A get whose first \<^verbatim>\<open>get_object\<close> is answered with a fault whose
  message asks for signature version 4, on a backend that serves every call once the
  connection has been made again: the handler reconnects once and then ends with the
  uncaught \<^verbatim>\<open>KeyError\<close> for \<^verbatim>\<open>s3_vars["obj"]\<close>; no second download is attempted. The
  same request as a getstr reconnects once, downloads again and succeeds.
\<close>

theorem get_sigv4_fallback_raises_key_error:
  "download_s3file plain_module sigv4_s3 ''b'' ''k'' ''/tmp/absent'' 0 None
     [HeadObject ''b'' ''k'' None] =
     (Stop Raise_Sigv4Required, [GetObject ''b'' ''k'' None, HeadObject ''b'' ''k'' None]) \<and>
   main_try (s3_object_do_get plain_env plain_module sigv4_s3 plain_request []) =
     (Raise_KeyError ''obj'',
      [GetS3Connection True, GetObject ''b'' ''k'' None, HeadObject ''b'' ''k'' None]) \<and>
   main_try (s3_object_do_getstr plain_module sigv4_s3 plain_request []) =
     (Exit_json (no_result\<lparr> r_msg := Some ''GET operation complete'',
                   r_contents := Some ''hello'', r_changed := Some True \<rparr>),
      [GetObject ''b'' ''k'' None, GetS3Connection True, GetObject ''b'' ''k'' None,
       HeadObject ''b'' ''k'' None])"
  by (simp add: get_eval put_eval tag_eval request_eval)

subsection \<open>The overwrite policy of a get\<close>

lemma get_download_overwrite:
  "get_download m s3 (vars\<lparr> v_overwrite := ow \<rparr>) = get_download m s3 vars"
  by (rule ext)
     (simp add: get_download_def s3_vars_getitem_def Let_def
        split: prod.splits res.splits stop.splits)

lemma get_without_gate:
  assumes "get_overwrite_gate env m s3 vars = ret ()"
  shows "s3_object_do_get env m s3 vars =
     then_do (key_check m s3 (v_bucket vars) (v_object vars) (v_version vars) (v_validate vars))
       (\<lambda>keyrtn.
          if \<not> keyrtn then
            (if truthy (v_version vars)
             then fail_json (''Key '' @ v_object vars @ '' with version id '' @
                             the (v_version vars) @ '' does not exist.'')
             else fail_json (''Key '' @ v_object vars @ '' does not exist.''))
          else get_download m s3 vars)"
proof -
  have "then_do (ret ()) (\<lambda>u. get_download m s3 vars) = get_download m s3 vars"
    by (rule ext) (simp add: then_do_ret)
  then show ?thesis by (simp add: s3_object_do_get_def assms cong: if_cong)
qed

lemma gate_open: "\<not> path_check env (v_dest vars) \<Longrightarrow> get_overwrite_gate env m s3 vars lg = (Ret (), lg)"
  by (simp add: get_overwrite_gate_def ret_def)

text \<open>
  C9. When the destination of a get does not exist locally, the overwrite gate returns
  at once, without a call: the handler does what it does under any other value of
  \<open>overwrite\<close>, and when the key is present it is the download (with its signature
  fallback) that runs, also under \<open>overwrite = never\<close>. The gate can only leave through
  one of its skip exits when the destination exists.
\<close>

theorem get_ignores_overwrite_without_dest:
  assumes "\<not> path_check env (v_dest vars)"
  shows "get_overwrite_gate env m s3 vars lg = (Ret (), lg) \<and>
         s3_object_do_get env m s3 (vars\<lparr> v_overwrite := ow \<rparr>) lg =
           s3_object_do_get env m s3 vars lg \<and>
         (key_check m s3 (v_bucket vars) (v_object vars) (v_version vars) (v_validate vars) lg =
            (Ret True, lg1) \<longrightarrow>
          s3_object_do_get env m s3 vars lg = get_download m s3 vars lg1)"
proof (intro conjI impI)
  show "get_overwrite_gate env m s3 vars lg = (Ret (), lg)"
    using assms by (rule gate_open)
next
  have g: "get_overwrite_gate env m s3 (vars\<lparr> v_overwrite := ow \<rparr>) = ret ()"
          "get_overwrite_gate env m s3 vars = ret ()"
    using assms by (simp_all add: get_overwrite_gate_def)
  show "s3_object_do_get env m s3 (vars\<lparr> v_overwrite := ow \<rparr>) lg =
           s3_object_do_get env m s3 vars lg"
    by (simp add: get_without_gate [OF g(1)] get_without_gate [OF g(2)] get_download_overwrite
          cong: if_cong)
next
  assume k: "key_check m s3 (v_bucket vars) (v_object vars) (v_version vars) (v_validate vars) lg =
            (Ret True, lg1)"
  have g: "get_overwrite_gate env m s3 vars = ret ()"
    using assms by (simp add: get_overwrite_gate_def)
  show "s3_object_do_get env m s3 vars lg = get_download m s3 vars lg1"
    using k by (simp add: get_without_gate [OF g] then_do_def)
qed

theorem get_ignores_overwrite_without_dest_witness:
  "v_overwrite plain_request = ''never'' \<and>
   \<not> path_check plain_env (v_dest plain_request) \<and>
   s3_object_do_get plain_env plain_module quiet_s3 plain_request [] =
     (Stop (Exit_json (no_result\<lparr> r_msg := Some ''GET operation complete'',
              r_changed := Some True \<rparr>)),
      [DownloadFile ''b'' ''k'' ''/tmp/absent'' None, GetObject ''b'' ''k'' None,
       HeadObject ''b'' ''k'' None]) \<and>
   s3_object_do_get plain_env plain_module quiet_s3 (plain_request\<lparr> v_overwrite := ''always'' \<rparr>) [] =
     s3_object_do_get plain_env plain_module quiet_s3 plain_request []"
proof -
  have h: "\<not> path_check plain_env (v_dest plain_request)"
    by (simp add: path_check_def plain_env_def plain_request_def)
  from get_ignores_overwrite_without_dest [OF h, of plain_module quiet_s3 "[]" "''always''"
         "[HeadObject ''b'' ''k'' None]"] h
  show ?thesis
    by (simp add: get_eval put_eval tag_eval request_eval)
qed

subsection \<open>Existence probes and what the handlers make of them\<close>













subsection \<open>The overwrite policy after validation\<close>

text \<open>
  C10. When \<open>populate_facts\<close> succeeds, \<open>overwrite\<close> is one of \<open>always\<close>, \<open>never\<close>,
  \<open>different\<close>, \<open>latest\<close>. A supplied value outside these four goes through
  \<^verbatim>\<open>module.boolean\<close>: true gives \<open>always\<close>, false gives \<open>never\<close>, and a value the
  conversion refuses fails the module. One of the four is kept (\<open>different\<close> needs MD5).
\<close>

theorem overwrite_after_validation:
  "(populate_facts_overwrite m HAS_MD5 overwrite = Inr ow \<longrightarrow>
      ow \<in> set [''always'', ''never'', ''different'', ''latest'']) \<and>
   (overwrite \<notin> set [''always'', ''never'', ''different'', ''latest''] \<longrightarrow>
      populate_facts_overwrite m HAS_MD5 overwrite =
        (case boolean m overwrite of
           Some b \<Rightarrow> Inr (if b then ''always'' else ''never'')
         | None \<Rightarrow> Inl (Fail_json (''The value '' @ overwrite @ '' is not a valid boolean.'')
                         None None))) \<and>
   (overwrite \<in> set [''always'', ''never'', ''different'', ''latest''] \<and>
    (overwrite = ''different'' \<longrightarrow> HAS_MD5) \<longrightarrow>
      populate_facts_overwrite m HAS_MD5 overwrite = Inr overwrite)"
  by (auto simp: populate_facts_overwrite_def split: option.splits if_splits)

theorem overwrite_after_validation_witness:
  "populate_facts_overwrite framework_module True ''yes'' = Inr ''always'' \<and>
   populate_facts_overwrite framework_module True ''no'' = Inr ''never'' \<and>
   populate_facts_overwrite framework_module True ''latest'' = Inr ''latest'' \<and>
   populate_facts_overwrite framework_module True ''maybe'' =
     Inl (Fail_json ''The value maybe is not a valid boolean.'' None None)"
  using overwrite_after_validation [of framework_module True "''yes''" "''always''"]
        overwrite_after_validation [of framework_module True "''no''" "''never''"]
        overwrite_after_validation [of framework_module True "''latest''" "''latest''"]
        overwrite_after_validation [of framework_module True "''maybe''" "''never''"]
  by (simp add: framework_module_def plain_module_def framework_boolean_def strip_def
        ascii_lower_def is_space_def BOOLEANS_TRUE_def BOOLEANS_FALSE_def)

text \<open>C10, as stated, fails: the value \<open>maybe\<close> is neither one of the four nor a
  boolean literal, and validation rejects it.\<close>

theorem overwrite_maybe_is_rejected:
  "framework_boolean ''maybe'' = None \<and>
   populate_facts_overwrite framework_module True ''maybe'' =
     Inl (Fail_json ''The value maybe is not a valid boolean.'' None None)"
  by (simp add: populate_facts_overwrite_def framework_module_def plain_module_def
        framework_boolean_def strip_def ascii_lower_def is_space_def BOOLEANS_TRUE_def
        BOOLEANS_FALSE_def)

subsection \<open>The download loop\<close>

lemma download_loop_bound:
  "\<exists>new. snd (download_loop m s3 bucket obj dest retries version xs lg) = new @ lg \<and>
         length new \<le> length xs \<and> list_all is_download_attempt new"
proof (induction xs arbitrary: lg)
  case Nil
  then show ?case by simp
next
  case (Cons x xs)
  let ?D = "DownloadFile bucket obj dest (version_arg version)"
  from Cons [of "?D # lg"] obtain new where
    n: "snd (download_loop m s3 bucket obj dest retries version xs (?D # lg)) = new @ ?D # lg"
       "length new \<le> length xs" "list_all is_download_attempt new" by blast
  have "snd (download_loop m s3 bucket obj dest retries version (x # xs) lg) = [?D] @ lg \<or>
        snd (download_loop m s3 bucket obj dest retries version (x # xs) lg) = (new @ [?D]) @ lg"
    using n(1)
    by (cases "s3_download_file s3 lg bucket obj dest (version_arg version)")
       (simp_all add: Let_def exit_json_def)
  then show ?case
  proof
    assume "snd (download_loop m s3 bucket obj dest retries version (x # xs) lg) = [?D] @ lg"
    then show ?thesis by (intro exI [of _ "[?D]"]) simp
  next
    assume "snd (download_loop m s3 bucket obj dest retries version (x # xs) lg) = (new @ [?D]) @ lg"
    with n(2,3) show ?thesis by (intro exI [of _ "new @ [?D]"]) simp
  qed
qed

lemma download_loop_cause:
  assumes "download_loop m s3 bucket obj dest retries version xs lg = (Stop s, lg')"
      and "s = Raise_S3ObjectFailure msg e \<or> s = Fail_json_aws e msg \<or> s = Raise e"
  shows "\<exists>h. lg' = DownloadFile bucket obj dest (version_arg version) # h \<and>
             s3_download_file s3 h bucket obj dest (version_arg version) = Inl e"
  using assms
proof (induction xs arbitrary: lg)
  case Nil
  then show ?case by simp
next
  case (Cons x xs)
  show ?case
  proof (cases "s3_download_file s3 lg bucket obj dest (version_arg version)")
    case (Inr u)
    with Cons.prems show ?thesis by (auto simp: Let_def exit_json_def)
  next
    case (Inl e')
    let ?D = "DownloadFile bucket obj dest (version_arg version)"
    have step:
      "download_loop m s3 bucket obj dest retries version (x # xs) lg =
         download_loop m s3 bucket obj dest retries version xs (?D # lg) \<or>
       (\<exists>s'. download_loop m s3 bucket obj dest retries version (x # xs) lg =
                  (Stop s', ?D # lg) \<and>
                  (s' = Raise_S3ObjectFailure (''Failed while downloading '' @ obj @ ''.'') e' \<or>
                   s' = Fail_json_aws e' ''s3 download failed'' \<or> s' = Raise e'))"
      using Inl
      by (cases "is_botocore e'"; cases "is_SSLError e'"; cases "x \<ge> retries")
         (simp_all add: Let_def)
    then show ?thesis
    proof
      assume again: "download_loop m s3 bucket obj dest retries version (x # xs) lg =
                        download_loop m s3 bucket obj dest retries version xs (?D # lg)"
      with Cons.prems(1) have
        "download_loop m s3 bucket obj dest retries version xs (?D # lg) = (Stop s, lg')" by simp
      from Cons.IH [OF this Cons.prems(2)] show ?thesis .
    next
      assume "\<exists>s'. download_loop m s3 bucket obj dest retries version (x # xs) lg =
                  (Stop s', ?D # lg) \<and>
                  (s' = Raise_S3ObjectFailure (''Failed while downloading '' @ obj @ ''.'') e' \<or>
                   s' = Fail_json_aws e' ''s3 download failed'' \<or> s' = Raise e')"
      then obtain s' where
        s': "download_loop m s3 bucket obj dest retries version (x # xs) lg = (Stop s', ?D # lg)"
            "s' = Raise_S3ObjectFailure (''Failed while downloading '' @ obj @ ''.'') e' \<or>
             s' = Fail_json_aws e' ''s3 download failed'' \<or> s' = Raise e'" by blast
      from s'(1) Cons.prems(1) have eqs: "s' = s" "lg' = ?D # lg" by simp_all
      with s'(2) Cons.prems(2) have "e' = e" by auto
      with Inl eqs(2) show ?thesis by blast
    qed
  qed
qed

lemma download_s3file_attempts:
  "\<exists>new. snd (download_s3file m s3 bucket obj dest retries version lg) = new @ lg \<and>
         length (filter is_download_attempt new) \<le> nat (retries + 1)"
proof (cases "check_mode m")
  case True
  then have "snd (download_s3file m s3 bucket obj dest retries version lg) = [] @ lg"
    by (simp add: download_s3file_def exit_json_def)
  then show ?thesis by (intro exI [of _ "[]"]) simp
next
  case False
  let ?G = "GetObject bucket obj (version_arg version)"
  show ?thesis
  proof (cases "s3_get_object s3 lg bucket obj (version_arg version)")
    case (Inl e)
    with False have "snd (download_s3file m s3 bucket obj dest retries version lg) = [?G] @ lg"
      by (simp add: download_s3file_def Let_def)
    then show ?thesis by (intro exI [of _ "[?G]"]) simp
  next
    case (Inr body)
    from download_loop_bound [of m s3 bucket obj dest retries version "[0..retries]" "?G # lg"]
    obtain new where
      n: "snd (download_loop m s3 bucket obj dest retries version [0..retries] (?G # lg)) =
            new @ ?G # lg"
         "length new \<le> length [0..retries]" by blast
    from Inr False n(1)
    have "snd (download_s3file m s3 bucket obj dest retries version lg) = (new @ [?G]) @ lg"
      by (simp add: download_s3file_def Let_def)
    moreover have "length (filter is_download_attempt (new @ [?G])) \<le> nat (retries + 1)"
    proof -
      have "length (filter is_download_attempt (new @ [?G])) \<le> length new" by simp
      also have "\<dots> \<le> nat (retries + 1)" using n(2) by simp
      finally show ?thesis .
    qed
    ultimately show ?thesis by blast
  qed
qed


text \<open>
  C5, as the code has it. A get download with retry count \<open>r\<close> attempts the file
  transfer at most \<open>r + 1\<close> times (never, when \<open>r + 1\<close> is not positive). Every
  \<^verbatim>\<open>ClientError\<close> or \<^verbatim>\<open>BotoCoreError\<close>, whatever its error code, and every
  \<^verbatim>\<open>SSLError\<close> is retried while \<open>x < r\<close>; any other exception propagates at once;
  the fault of an attempt with \<open>x \<ge> r\<close> is surfaced, attached to the failure; and a
  download that ends in the failure "Failed while downloading" carries the fault of the
  last attempt issued.
\<close>

theorem download_retries_every_backend_fault:
  "(\<exists>new. snd (download_s3file m s3 bucket obj dest retries version lg) = new @ lg \<and>
          length (filter is_download_attempt new) \<le> nat (retries + 1)) \<and>
   (s3_download_file s3 lg bucket obj dest (version_arg version) = Inl e \<and>
    (is_botocore e \<or> is_SSLError e) \<and> x < retries \<longrightarrow>
      download_loop m s3 bucket obj dest retries version (x # xs) lg =
        download_loop m s3 bucket obj dest retries version xs
          (DownloadFile bucket obj dest (version_arg version) # lg)) \<and>
   (s3_download_file s3 lg bucket obj dest (version_arg version) = Inl e \<and>
    \<not> is_botocore e \<and> \<not> is_SSLError e \<longrightarrow>
      download_loop m s3 bucket obj dest retries version (x # xs) lg =
        (Stop (Raise e), DownloadFile bucket obj dest (version_arg version) # lg)) \<and>
   (s3_download_file s3 lg bucket obj dest (version_arg version) = Inl e \<and> retries \<le> x \<longrightarrow>
      download_loop m s3 bucket obj dest retries version (x # xs) lg =
        (Stop (if is_botocore e
               then Raise_S3ObjectFailure (''Failed while downloading '' @ obj @ ''.'') e
               else if is_SSLError e then Fail_json_aws e ''s3 download failed''
               else Raise e),
         DownloadFile bucket obj dest (version_arg version) # lg)) \<and>
   (\<forall>e' lg'. download_s3file m s3 bucket obj dest retries version lg =
               (Stop (Raise_S3ObjectFailure (''Failed while downloading '' @ obj @ ''.'') e'), lg') \<longrightarrow>
      (\<exists>h. lg' = DownloadFile bucket obj dest (version_arg version) # h \<and>
           s3_download_file s3 h bucket obj dest (version_arg version) = Inl e'))"
proof (intro conjI allI impI)
  show "\<exists>new. snd (download_s3file m s3 bucket obj dest retries version lg) = new @ lg \<and>
          length (filter is_download_attempt new) \<le> nat (retries + 1)"
    by (rule download_s3file_attempts)
next
  assume "s3_download_file s3 lg bucket obj dest (version_arg version) = Inl e \<and>
          (is_botocore e \<or> is_SSLError e) \<and> x < retries"
  then show "download_loop m s3 bucket obj dest retries version (x # xs) lg =
        download_loop m s3 bucket obj dest retries version xs
          (DownloadFile bucket obj dest (version_arg version) # lg)"
    by (auto simp: Let_def)
next
  assume "s3_download_file s3 lg bucket obj dest (version_arg version) = Inl e \<and>
          \<not> is_botocore e \<and> \<not> is_SSLError e"
  then show "download_loop m s3 bucket obj dest retries version (x # xs) lg =
        (Stop (Raise e), DownloadFile bucket obj dest (version_arg version) # lg)"
    by (simp add: Let_def)
next
  assume "s3_download_file s3 lg bucket obj dest (version_arg version) = Inl e \<and> retries \<le> x"
  then show "download_loop m s3 bucket obj dest retries version (x # xs) lg =
        (Stop (if is_botocore e
               then Raise_S3ObjectFailure (''Failed while downloading '' @ obj @ ''.'') e
               else if is_SSLError e then Fail_json_aws e ''s3 download failed''
               else Raise e),
         DownloadFile bucket obj dest (version_arg version) # lg)"
    by (simp add: Let_def)
next
  fix e' lg'
  assume a: "download_s3file m s3 bucket obj dest retries version lg =
               (Stop (Raise_S3ObjectFailure (''Failed while downloading '' @ obj @ ''.'') e'), lg')"
  show "\<exists>h. lg' = DownloadFile bucket obj dest (version_arg version) # h \<and>
           s3_download_file s3 h bucket obj dest (version_arg version) = Inl e'"
  proof (cases "s3_get_object s3 lg bucket obj (version_arg version)")
    case (Inl e0)
    with a show ?thesis
      by (simp add: download_s3file_def Let_def exit_json_def split: if_splits)
  next
    case (Inr body)
    with a have "download_loop m s3 bucket obj dest retries version [0..retries]
                   (GetObject bucket obj (version_arg version) # lg) =
                 (Stop (Raise_S3ObjectFailure (''Failed while downloading '' @ obj @ ''.'') e'), lg')"
      by (simp add: download_s3file_def Let_def exit_json_def split: if_splits)
    then show ?thesis by (rule download_loop_cause) simp
  qed
qed

lemmas download_eval =
  download_s3file_def broken_download_s3_def denying_once_s3_def quiet_s3_def plain_module_def
  exit_json_def no_result_def version_arg_def truthy_def is_botocore_def is_SSLError_def
  is_boto3_error_code_def is_boto3_error_message_def upto.simps Let_def

theorem download_retries_every_backend_fault_witness:
  "download_s3file plain_module denying_once_s3 ''b'' ''k'' ''/tmp/absent'' 1 None [] =
     (Stop (Exit_json (no_result\<lparr> r_msg := Some ''GET operation complete'',
              r_changed := Some True \<rparr>)),
      [DownloadFile ''b'' ''k'' ''/tmp/absent'' None, DownloadFile ''b'' ''k'' ''/tmp/absent'' None,
       GetObject ''b'' ''k'' None]) \<and>
   download_s3file plain_module (broken_download_s3 (ClientError ''500'' ''Internal Error''))
       ''b'' ''k'' ''/tmp/absent'' 1 None [] =
     (Stop (Raise_S3ObjectFailure ''Failed while downloading k.''
              (ClientError ''500'' ''Internal Error'')),
      [DownloadFile ''b'' ''k'' ''/tmp/absent'' None, DownloadFile ''b'' ''k'' ''/tmp/absent'' None,
       GetObject ''b'' ''k'' None]) \<and>
   download_s3file plain_module (broken_download_s3 (OtherException ''OSError''))
       ''b'' ''k'' ''/tmp/absent'' 1 None [] =
     (Stop (Raise (OtherException ''OSError'')),
      [DownloadFile ''b'' ''k'' ''/tmp/absent'' None, GetObject ''b'' ''k'' None])"
  using download_retries_every_backend_fault
          [of plain_module denying_once_s3 "''b''" "''k''" "''/tmp/absent''" 1 None
              "[GetObject ''b'' ''k'' None]" "ClientError ''403'' ''Forbidden''" 0 "[1]"]
        download_retries_every_backend_fault
          [of plain_module "broken_download_s3 (ClientError ''500'' ''Internal Error'')"
              "''b''" "''k''" "''/tmp/absent''" 1 None
              "[DownloadFile ''b'' ''k'' ''/tmp/absent'' None, GetObject ''b'' ''k'' None]"
              "ClientError ''500'' ''Internal Error''" 1 "[]"]
        download_retries_every_backend_fault
          [of plain_module "broken_download_s3 (OtherException ''OSError'')"
              "''b''" "''k''" "''/tmp/absent''" 1 None
              "[GetObject ''b'' ''k'' None]" "OtherException ''OSError''" 0 "[1]"]
  by (simp add: download_eval)

text \<open>
  C5, as stated, fails on faults that are not transient. Access-denied is a fault the
  same function treats as final when \<^verbatim>\<open>get_object\<close> raises
  it; raised by \<^verbatim>\<open>download_file\<close> it is retried like any other \<^verbatim>\<open>ClientError\<close>: with
  one retry the transfer is attempted again and the download succeeds.
\<close>

theorem download_retries_access_denied:
  "is_boto3_error_code [''404'', ''403''] (ClientError ''403'' ''Forbidden'') \<and>
   s3_download_file denying_once_s3 [GetObject ''b'' ''k'' None] ''b'' ''k'' ''/tmp/absent'' None =
     Inl (ClientError ''403'' ''Forbidden'') \<and>
   download_s3file plain_module denying_once_s3 ''b'' ''k'' ''/tmp/absent'' 1 None [] =
     (Stop (Exit_json (no_result\<lparr> r_msg := Some ''GET operation complete'',
              r_changed := Some True \<rparr>)),
      [DownloadFile ''b'' ''k'' ''/tmp/absent'' None, DownloadFile ''b'' ''k'' ''/tmp/absent'' None,
       GetObject ''b'' ''k'' None])"
  by (simp add: download_eval)

subsection \<open>Bucket deletion\<close>

lemma then_do_Ret_inv:
  "then_do m f lg = (Ret y, l) \<Longrightarrow> \<exists>x l1. m lg = (Ret x, l1) \<and> f x l1 = (Ret y, l)"
  by (auto simp: then_do_def split: prod.splits res.splits)

lemma then_do_Stop_inv:
  "then_do m f lg = (Stop s, l) \<Longrightarrow>
     m lg = (Stop s, l) \<or> (\<exists>x l1. m lg = (Ret x, l1) \<and> f x l1 = (Stop s, l))"
  by (auto simp: then_do_def split: prod.splits res.splits)

lemma delete_batches_shape:
  "\<exists>l. delete_batches s3 bucket ps lg = (Ret (), l) \<or>
       (\<exists>e. delete_batches s3 bucket ps lg = (Stop (Raise e), l))"
proof (induction ps arbitrary: lg)
  case Nil
  then show ?case by simp
next
  case (Cons keys rest)
  show ?case
  proof (cases "keys \<noteq> []")
    case False
    then show ?thesis using Cons [of lg] by simp
  next
    case True
    show ?thesis
    proof (cases "s3_delete_objects s3 lg bucket keys")
      case (Inl e)
      with True show ?thesis by simp
    next
      case (Inr u)
      with True show ?thesis using Cons [of "DeleteObjects bucket keys # lg"] by simp
    qed
  qed
qed

lemma then_do_shape:
  assumes "\<And>lg. \<exists>l. m lg = (Ret (), l) \<or> (\<exists>e. m lg = (Stop (Raise e), l))"
      and "\<And>lg. \<exists>l. f () lg = (Ret (), l) \<or> (\<exists>e. f () lg = (Stop (Raise e), l))"
  shows "\<exists>l. then_do m f lg = (Ret (), l) \<or> (\<exists>e. then_do m f lg = (Stop (Raise e), l))"
proof -
  from assms(1) [of lg] obtain l1 where
    "m lg = (Ret (), l1) \<or> (\<exists>e. m lg = (Stop (Raise e), l1))" by blast
  then show ?thesis
  proof
    assume "m lg = (Ret (), l1)"
    then have "then_do m f lg = f () l1" by (simp add: then_do_def)
    with assms(2) [of l1] show ?thesis by simp
  next
    assume "\<exists>e. m lg = (Stop (Raise e), l1)"
    then show ?thesis by (auto simp: then_do_def)
  qed
qed

lemma delete_all_keys_shape:
  "\<exists>l. delete_all_keys s3 bucket lg = (Ret (), l) \<or>
       (\<exists>e. delete_all_keys s3 bucket lg = (Stop (Raise e), l))"
proof -
  obtain pages ending where lv: "s3_list_object_versions s3 lg bucket = (pages, ending)"
    by (cases "s3_list_object_versions s3 lg bucket")
  let ?fallback = "\<lambda>lg. case s3_list_objects_v2 s3 lg bucket of
                     (key_pages, ending2) \<Rightarrow>
                       then_do (delete_batches s3 bucket (paginated_list_batches key_pages))
                         (\<lambda>u lg. case ending2 of None \<Rightarrow> (Ret (), lg)
                                  | Some e2 \<Rightarrow> (Stop (Raise e2), lg))
                         (ListObjectsV2 bucket # lg)"
  have fb: "\<exists>l. ?fallback lg = (Ret (), l) \<or> (\<exists>e. ?fallback lg = (Stop (Raise e), l))" for lg
  proof -
    obtain key_pages ending2 where l2: "s3_list_objects_v2 s3 lg bucket = (key_pages, ending2)"
      by (cases "s3_list_objects_v2 s3 lg bucket")
    have "\<exists>l. then_do (delete_batches s3 bucket (paginated_list_batches key_pages))
                (\<lambda>u lg. case ending2 of None \<Rightarrow> (Ret (), lg)
                         | Some e2 \<Rightarrow> (Stop (Raise e2), lg))
                (ListObjectsV2 bucket # lg) = (Ret (), l) \<or>
              (\<exists>e. then_do (delete_batches s3 bucket (paginated_list_batches key_pages))
                (\<lambda>u lg. case ending2 of None \<Rightarrow> (Ret (), lg)
                         | Some e2 \<Rightarrow> (Stop (Raise e2), lg))
                (ListObjectsV2 bucket # lg) = (Stop (Raise e), l))"
      by (rule then_do_shape) (rule delete_batches_shape, cases ending2, simp_all)
    with l2 show ?thesis by simp
  qed
  let ?after = "\<lambda>u::unit. case ending of
                    None \<Rightarrow> ret ()
                  | Some e \<Rightarrow>
                      if is_boto3_error_code (IGNORE_S3_DROP_IN_EXCEPTIONS @ [''AccessDenied'']) e
                      then ?fallback
                      else (\<lambda>lg. (Stop (Raise e), lg))"
  have af: "\<exists>l. ?after () lg = (Ret (), l) \<or> (\<exists>e. ?after () lg = (Stop (Raise e), l))" for lg
  proof (cases ending)
    case None
    then show ?thesis by (simp add: ret_def)
  next
    case (Some e)
    show ?thesis
    proof (cases "is_boto3_error_code (IGNORE_S3_DROP_IN_EXCEPTIONS @ [''AccessDenied'']) e")
      case True
      with Some fb [of lg] show ?thesis by simp
    next
      case False
      with Some show ?thesis by simp
    qed
  qed
  have "\<exists>l. then_do (delete_batches s3 bucket (map versioned_batch pages)) ?after
              (ListObjectVersions bucket # lg) = (Ret (), l) \<or>
            (\<exists>e. then_do (delete_batches s3 bucket (map versioned_batch pages)) ?after
              (ListObjectVersions bucket # lg) = (Stop (Raise e), l))"
    by (rule then_do_shape) (rule delete_batches_shape, rule af)
  then show ?thesis by (simp add: delete_all_keys_def lv)
qed


lemma bucket_check_absent:
  "s3_head_bucket s3 lg bucket = Inl e \<Longrightarrow> is_boto3_error_code [''404''] e \<Longrightarrow>
   bucket_check m s3 bucket validate lg = (Ret False, HeadBucket bucket # lg)"
  by (simp add: bucket_check_def Let_def)

lemma bucket_check_no_exit:
  "bucket_check m s3 bucket validate lg \<noteq> (Stop (Exit_json r), l)"
  by (cases "s3_head_bucket s3 lg bucket") (simp_all add: bucket_check_def Let_def)

lemma delete_bucket_absent:
  assumes "\<not> check_mode m" "s3_head_bucket s3 lg bucket = Inl e" "is_boto3_error_code [''404''] e"
  shows "delete_bucket m s3 bucket lg = (Ret False, HeadBucket bucket # lg)"
  using assms
  by (simp add: delete_bucket_def then_do_def bucket_check_absent ret_def)

text \<open>The part of \<open>delete_bucket\<close> inside its \<^verbatim>\<open>try\<close>.\<close>

lemma delete_inner_True:
  assumes "then_do (bucket_check m s3 bucket True)
             (\<lambda>exists. if \<not> exists then ret False
                else then_do (delete_all_keys s3 bucket)
                       (\<lambda>u. then_do (\<lambda>lg. api (s3_delete_bucket s3 lg bucket) (DeleteBucket bucket) lg)
                               (\<lambda>u. ret True))) lg = (Ret True, l)"
  shows "\<exists>h. l = DeleteBucket bucket # h \<and> s3_delete_bucket s3 h bucket = Inr ()"
proof -
  from then_do_Ret_inv [OF assms] obtain ex l1 where
    a: "(if \<not> ex then ret False
         else then_do (delete_all_keys s3 bucket)
                (\<lambda>u. then_do (\<lambda>lg. api (s3_delete_bucket s3 lg bucket) (DeleteBucket bucket) lg)
                        (\<lambda>u. ret True))) l1 = (Ret True, l)" by blast
  then have "then_do (delete_all_keys s3 bucket)
                (\<lambda>u. then_do (\<lambda>lg. api (s3_delete_bucket s3 lg bucket) (DeleteBucket bucket) lg)
                        (\<lambda>u. ret True)) l1 = (Ret True, l)"
    by (cases ex) (simp_all add: ret_def)
  from then_do_Ret_inv [OF this] obtain l2 where
    "then_do (\<lambda>lg. api (s3_delete_bucket s3 lg bucket) (DeleteBucket bucket) lg)
       (\<lambda>u. ret True) l2 = (Ret True, l)" by blast
  from then_do_Ret_inv [OF this] obtain l3 where
    "api (s3_delete_bucket s3 l2 bucket) (DeleteBucket bucket) l2 = (Ret (), l3)"
    "ret True l3 = (Ret True, l)" by auto
  then show ?thesis
    by (cases "s3_delete_bucket s3 l2 bucket") (auto simp: api_def ret_def)
qed

lemma delete_inner_no_exit:
  "then_do (bucket_check m s3 bucket True)
     (\<lambda>exists. if \<not> exists then ret False
        else then_do (delete_all_keys s3 bucket)
               (\<lambda>u. then_do (\<lambda>lg. api (s3_delete_bucket s3 lg bucket) (DeleteBucket bucket) lg)
                       (\<lambda>u. ret True))) lg \<noteq> (Stop (Exit_json r), l)"
proof
  assume a: "then_do (bucket_check m s3 bucket True)
     (\<lambda>exists. if \<not> exists then ret False
        else then_do (delete_all_keys s3 bucket)
               (\<lambda>u. then_do (\<lambda>lg. api (s3_delete_bucket s3 lg bucket) (DeleteBucket bucket) lg)
                       (\<lambda>u. ret True))) lg = (Stop (Exit_json r), l)"
  from then_do_Stop_inv [OF a] bucket_check_no_exit obtain ex l1 where
    b: "(if \<not> ex then ret False
         else then_do (delete_all_keys s3 bucket)
                (\<lambda>u. then_do (\<lambda>lg. api (s3_delete_bucket s3 lg bucket) (DeleteBucket bucket) lg)
                        (\<lambda>u. ret True))) l1 = (Stop (Exit_json r), l)" by blast
  then have c: "then_do (delete_all_keys s3 bucket)
                (\<lambda>u. then_do (\<lambda>lg. api (s3_delete_bucket s3 lg bucket) (DeleteBucket bucket) lg)
                        (\<lambda>u. ret True)) l1 = (Stop (Exit_json r), l)"
    by (cases ex) (simp_all add: ret_def)
  from delete_all_keys_shape [of s3 bucket l1] obtain l2 where
    "delete_all_keys s3 bucket l1 = (Ret (), l2) \<or>
     (\<exists>e. delete_all_keys s3 bucket l1 = (Stop (Raise e), l2))" by blast
  then show False
  proof
    assume "delete_all_keys s3 bucket l1 = (Ret (), l2)"
    with c show False
      by (cases "s3_delete_bucket s3 l2 bucket") (simp_all add: then_do_def api_def ret_def)
  next
    assume "\<exists>e. delete_all_keys s3 bucket l1 = (Stop (Raise e), l2)"
    with c show False by (auto simp: then_do_def)
  qed
qed

lemma delete_bucket_True:
  assumes "\<not> check_mode m" "delete_bucket m s3 bucket lg = (Ret True, l)"
  shows "\<exists>h. l = DeleteBucket bucket # h \<and> s3_delete_bucket s3 h bucket = Inr ()"
proof -
  let ?inner = "then_do (bucket_check m s3 bucket True)
     (\<lambda>exists. if \<not> exists then ret False
        else then_do (delete_all_keys s3 bucket)
               (\<lambda>u. then_do (\<lambda>lg. api (s3_delete_bucket s3 lg bucket) (DeleteBucket bucket) lg)
                       (\<lambda>u. ret True))) lg"
  from assms have "?inner = (Ret True, l)"
    by (auto simp: delete_bucket_def split: prod.splits res.splits stop.splits if_splits)
  then show ?thesis by (rule delete_inner_True)
qed

lemma delete_bucket_no_exit:
  assumes "\<not> check_mode m"
  shows "delete_bucket m s3 bucket lg \<noteq> (Stop (Exit_json r), l)"
proof
  let ?inner = "then_do (bucket_check m s3 bucket True)
     (\<lambda>exists. if \<not> exists then ret False
        else then_do (delete_all_keys s3 bucket)
               (\<lambda>u. then_do (\<lambda>lg. api (s3_delete_bucket s3 lg bucket) (DeleteBucket bucket) lg)
                       (\<lambda>u. ret True))) lg"
  assume "delete_bucket m s3 bucket lg = (Stop (Exit_json r), l)"
  with assms have "?inner = (Stop (Exit_json r), l)"
    by (auto simp: delete_bucket_def split: prod.splits res.splits stop.splits if_splits)
  with delete_inner_no_exit show False by blast
qed


lemma delete_absent_run:
  assumes "\<not> check_mode m" "v_bucket vars \<noteq> []"
      and "s3_head_bucket s3 lg (v_bucket vars) = Inl e" "is_boto3_error_code [''404''] e"
  shows "main_try (s3_object_do_delete m s3 vars lg) =
           (Exit_json (no_result\<lparr> r_failed := Some False \<rparr>), HeadBucket (v_bucket vars) # lg)"
  using assms(2) delete_bucket_absent [OF assms(1,3,4)]
  by (simp add: s3_object_do_delete_def then_do_def ret_def main_try_def)

lemma delete_changed_run:
  assumes nc: "\<not> check_mode m" and nb: "v_bucket vars \<noteq> []"
      and run: "main_try (s3_object_do_delete m s3 vars lg) = (Exit_json r, lg1)"
      and ch: "reported_changed r"
  shows "delete_bucket m s3 (v_bucket vars) lg = (Ret True, lg1)"
proof (cases "delete_bucket m s3 (v_bucket vars) lg")
  case (Pair res l)
  show ?thesis
  proof (cases res)
    case (Ret deleted)
    show ?thesis
    proof (cases deleted)
      case True
      with Ret Pair nb run show ?thesis
        by (simp add: s3_object_do_delete_def then_do_def exit_json_def main_try_def)
    next
      case False
      with Ret Pair nb run have "r = no_result\<lparr> r_failed := Some False \<rparr>"
        by (simp add: s3_object_do_delete_def then_do_def ret_def main_try_def)
      with ch show ?thesis by (simp add: reported_changed_def no_result_def)
    qed
  next
    case (Stop s)
    with Pair nb have d: "s3_object_do_delete m s3 vars lg = (Stop s, l)"
      by (simp add: s3_object_do_delete_def then_do_def)
    from Pair Stop delete_bucket_no_exit [OF nc] have ne: "\<And>x. s \<noteq> Exit_json x" by blast
    have "r = no_result\<lparr> r_failed := Some False \<rparr>"
      using run ne unfolding d
      by (cases s) (auto simp: main_try_def split: if_splits)
    with ch show ?thesis by (simp add: reported_changed_def no_result_def)
  qed
qed

text \<open>
  C8, outside check mode. A delete (through \<open>main\<close>'s handling of the handler) on a
  bucket that \<^verbatim>\<open>head_bucket\<close> reports not-found issues that one call only, no deletion,
  and exits without \<open>changed\<close>: the task reports no change. After a delete that
  reported a change, on a backend that answers \<^verbatim>\<open>head_bucket\<close> with not-found once
  \<^verbatim>\<open>delete_bucket\<close> has succeeded, a second delete does the same.
\<close>

theorem delete_is_idempotent_outside_check_mode:
  assumes "\<not> check_mode m" "v_bucket vars \<noteq> []"
  shows
   "(s3_head_bucket s3 lg (v_bucket vars) = Inl e \<and> is_boto3_error_code [''404''] e \<longrightarrow>
       main_try (s3_object_do_delete m s3 vars lg) =
         (Exit_json (no_result\<lparr> r_failed := Some False \<rparr>), HeadBucket (v_bucket vars) # lg) \<and>
       \<not> reported_changed (no_result\<lparr> r_failed := Some False \<rparr>)) \<and>
    (main_try (s3_object_do_delete m s3 vars lg) = (Exit_json r, lg1) \<and> reported_changed r \<and>
     (\<forall>h. s3_delete_bucket s3 h (v_bucket vars) = Inr () \<longrightarrow>
        (\<exists>e. s3_head_bucket s3 (DeleteBucket (v_bucket vars) # h) (v_bucket vars) = Inl e \<and>
             is_boto3_error_code [''404''] e)) \<longrightarrow>
       main_try (s3_object_do_delete m s3 vars lg1) =
         (Exit_json (no_result\<lparr> r_failed := Some False \<rparr>), HeadBucket (v_bucket vars) # lg1))"
proof (intro conjI impI)
  assume "s3_head_bucket s3 lg (v_bucket vars) = Inl e \<and> is_boto3_error_code [''404''] e"
  then show "main_try (s3_object_do_delete m s3 vars lg) =
         (Exit_json (no_result\<lparr> r_failed := Some False \<rparr>), HeadBucket (v_bucket vars) # lg)"
    using delete_absent_run [OF assms] by blast
next
  show "\<not> reported_changed (no_result\<lparr> r_failed := Some False \<rparr>)"
    by (simp add: reported_changed_def no_result_def)
next
  assume a: "main_try (s3_object_do_delete m s3 vars lg) = (Exit_json r, lg1) \<and>
             reported_changed r \<and>
             (\<forall>h. s3_delete_bucket s3 h (v_bucket vars) = Inr () \<longrightarrow>
                (\<exists>e. s3_head_bucket s3 (DeleteBucket (v_bucket vars) # h) (v_bucket vars) = Inl e \<and>
                     is_boto3_error_code [''404''] e))"
  then have "delete_bucket m s3 (v_bucket vars) lg = (Ret True, lg1)"
    using delete_changed_run [OF assms] by blast
  from delete_bucket_True [OF assms(1) this] obtain h where
    h: "lg1 = DeleteBucket (v_bucket vars) # h" "s3_delete_bucket s3 h (v_bucket vars) = Inr ()"
    by blast
  with a obtain e' where
    "s3_head_bucket s3 lg1 (v_bucket vars) = Inl e'" "is_boto3_error_code [''404''] e'" by blast
  then show "main_try (s3_object_do_delete m s3 vars lg1) =
         (Exit_json (no_result\<lparr> r_failed := Some False \<rparr>), HeadBucket (v_bucket vars) # lg1)"
    by (rule delete_absent_run [OF assms])
qed

lemmas delete_eval =
  s3_object_do_delete_def delete_bucket_def delete_all_keys_def bucket_check_def
  paginated_list_batches_def versioned_batch_def IGNORE_S3_DROP_IN_EXCEPTIONS_def
  main_try_def reported_changed_def then_do_def api_def ret_def exit_json_def fail_json_def
  unversioned_s3_def missing_s3_def quiet_s3_def plain_module_def plain_request_def
  checking_module_def purging_module_def no_result_def is_boto3_error_code_def is_botocore_def
  Let_def

theorem delete_is_idempotent_outside_check_mode_witness:
  "main_try (s3_object_do_delete plain_module unversioned_s3 (plain_request\<lparr> v_bucket := ''x'' \<rparr>) []) =
     (Exit_json (no_result\<lparr> r_msg := Some ''Bucket x and all keys have been deleted.'',
                   r_changed := Some True \<rparr>),
      [DeleteBucket ''x'', DeleteObjects ''x'' [(''p/2'', None)], DeleteObjects ''x'' [(''p/1'', None)],
       ListObjectsV2 ''x'', ListObjectVersions ''x'', HeadBucket ''x'']) \<and>
   main_try (s3_object_do_delete plain_module unversioned_s3 (plain_request\<lparr> v_bucket := ''x'' \<rparr>)
       [DeleteBucket ''x'', DeleteObjects ''x'' [(''p/2'', None)], DeleteObjects ''x'' [(''p/1'', None)],
        ListObjectsV2 ''x'', ListObjectVersions ''x'', HeadBucket ''x'']) =
     (Exit_json (no_result\<lparr> r_failed := Some False \<rparr>),
      [HeadBucket ''x'', DeleteBucket ''x'', DeleteObjects ''x'' [(''p/2'', None)],
       DeleteObjects ''x'' [(''p/1'', None)], ListObjectsV2 ''x'', ListObjectVersions ''x'',
       HeadBucket ''x'']) \<and>
   main_try (s3_object_do_delete plain_module missing_s3 (plain_request\<lparr> v_bucket := ''x'' \<rparr>) []) =
     (Exit_json (no_result\<lparr> r_failed := Some False \<rparr>), [HeadBucket ''x''])"
proof -
  let ?vars = "plain_request\<lparr> v_bucket := ''x'' \<rparr>"
  let ?lg1 = "[DeleteBucket ''x'', DeleteObjects ''x'' [(''p/2'', None)],
               DeleteObjects ''x'' [(''p/1'', None)], ListObjectsV2 ''x'', ListObjectVersions ''x'',
               HeadBucket ''x'']"
  let ?r = "no_result\<lparr> r_msg := Some ''Bucket x and all keys have been deleted.'',
                        r_changed := Some True \<rparr>"
  have nc: "\<not> check_mode plain_module" "v_bucket ?vars \<noteq> []"
    by (simp_all add: plain_module_def plain_request_def)
  have first: "main_try (s3_object_do_delete plain_module unversioned_s3 ?vars []) =
                 (Exit_json ?r, ?lg1)"
    by (simp add: delete_eval)
  have ch: "reported_changed ?r" by (simp add: reported_changed_def no_result_def)
  have gone: "\<forall>h. s3_delete_bucket unversioned_s3 h (v_bucket ?vars) = Inr () \<longrightarrow>
        (\<exists>e. s3_head_bucket unversioned_s3 (DeleteBucket (v_bucket ?vars) # h) (v_bucket ?vars) = Inl e \<and>
             is_boto3_error_code [''404''] e)"
    by (simp add: unversioned_s3_def quiet_s3_def plain_request_def is_boto3_error_code_def)
  have absent: "s3_head_bucket missing_s3 [] (v_bucket ?vars) = Inl (ClientError ''404'' ''Not Found'')"
               "is_boto3_error_code [''404''] (ClientError ''404'' ''Not Found'')"
    by (simp_all add: missing_s3_def quiet_s3_def is_boto3_error_code_def)
  from delete_is_idempotent_outside_check_mode
         [OF nc, of unversioned_s3 "[]" "ClientError ''404'' ''Not Found''" ?r ?lg1]
       first ch gone
  have second: "main_try (s3_object_do_delete plain_module unversioned_s3 ?vars ?lg1) =
         (Exit_json (no_result\<lparr> r_failed := Some False \<rparr>), HeadBucket (v_bucket ?vars) # ?lg1)"
    by blast
  from delete_is_idempotent_outside_check_mode
         [OF nc, of missing_s3 "[]" "ClientError ''404'' ''Not Found''" ?r ?lg1] absent
  have third: "main_try (s3_object_do_delete plain_module missing_s3 ?vars []) =
         (Exit_json (no_result\<lparr> r_failed := Some False \<rparr>), HeadBucket (v_bucket ?vars) # [])"
    by blast
  from first second third show ?thesis by (simp add: plain_request_def)
qed

text \<open>
  C8, as stated, fails in check mode: \<open>delete_bucket\<close> exits before it probes, so on a
  bucket that does not exist
  the delete issues no call and reports \<open>changed = true\<close>.
\<close>

theorem check_mode_delete_reports_changed:
  "bucket_check checking_module missing_s3 ''x'' True [] = (Ret False, [HeadBucket ''x'']) \<and>
   main_try (s3_object_do_delete checking_module missing_s3 (plain_request\<lparr> v_bucket := ''x'' \<rparr>) []) =
     (Exit_json (no_result\<lparr> r_msg := Some ''DELETE operation skipped - running in check mode'',
                   r_changed := Some True \<rparr>), []) \<and>
   reported_changed (no_result\<lparr> r_msg := Some ''DELETE operation skipped - running in check mode'',
                       r_changed := Some True \<rparr>)"
  by (simp add: delete_eval)

end
